theory Spec2Isabelle
  imports Main "HOL-Library.Sublist"
begin

section \<open>URL records\<close>

text \<open>
  Modelled from the spec: \<^verbatim>\<open>lib/Url.js\<close> (the \<^verbatim>\<open>Url\<close> class that both
  \<^verbatim>\<open>DbUrlList\<close> and \<^verbatim>\<open>Crawler\<close> require) is not among the sources. The spec's
  data model gives a URL record the attributes \<^verbatim>\<open>url\<close>, \<^verbatim>\<open>statusCode\<close>,
  \<^verbatim>\<open>errorCode\<close> and \<^verbatim>\<open>errorMessage\<close>, the last three optional (\<^verbatim>\<open>null\<close> is
  \<open>None\<close>); the sources read them through \<^verbatim>\<open>getUrl()\<close>, \<^verbatim>\<open>getStatusCode()\<close>,
  \<^verbatim>\<open>getErrorCode()\<close> and \<^verbatim>\<open>getErrorMessage()\<close> and build records with
  \<^verbatim>\<open>new Url({...})\<close>, an attribute left out being \<^verbatim>\<open>null\<close>.
\<close>

record Url =
  url :: string
  statusCode :: "int option"
  errorCode :: "string option"
  errorMessage :: "string option"

definition getUrl :: "Url \<Rightarrow> string" where
  "getUrl u = url u"

definition getStatusCode :: "Url \<Rightarrow> int option" where
  "getStatusCode u = statusCode u"

definition getErrorCode :: "Url \<Rightarrow> string option" where
  "getErrorCode u = errorCode u"

definition getErrorMessage :: "Url \<Rightarrow> string option" where
  "getErrorMessage u = errorMessage u"

text \<open>\<^verbatim>\<open>new Url({url: link})\<close>: every other attribute is \<^verbatim>\<open>null\<close>.\<close>

definition newUrl :: "string \<Rightarrow> Url" where
  "newUrl link = \<lparr>url = link, statusCode = None, errorCode = None, errorMessage = None\<rparr>"

section \<open>Errors\<close>

text \<open>
  Modelled from the spec: \<^verbatim>\<open>lib/error.js\<close> is not among the sources. The spec's
  taxonomy has four classified failures; the sources construct each with a message
  and set \<^verbatim>\<open>statusCode\<close> on an \<^verbatim>\<open>HttpError\<close>. The four classes are taken to be
  constructor functions of the kind \<^verbatim>\<open>Crawler\<close> itself is (\<^verbatim>\<open>util.inherits\<close>):
  called as a plain function, without \<^verbatim>\<open>new\<close>, such a constructor returns
  \<^verbatim>\<open>undefined\<close>. \<open>RangeError\<close> and \<open>TypeError\<close> are JavaScript's own classes;
  \<open>ValidationError\<close>, \<open>UniqueConstraintError\<close> and \<open>DatabaseError\<close> are those of
  Sequelize, the store of \<^verbatim>\<open>DbUrlList\<close>; \<open>OtherError\<close> stands for an error of any
  other class. Each carries its message. The messages of errors that JavaScript and the
  libraries raise are given as those libraries word them; nothing below depends on
  their wording.
\<close>

datatype error =
    RobotsNotAllowedError string
  | HttpError string int
  | RequestError string
  | HandlersError string
  | RangeError string
  | TypeError string
  | ValidationError string
  | UniqueConstraintError string
  | DatabaseError string
  | OtherError string

fun message :: "error \<Rightarrow> string" where
  "message (RobotsNotAllowedError m) = m"
| "message (HttpError m sc) = m"
| "message (RequestError m) = m"
| "message (HandlersError m) = m"
| "message (RangeError m) = m"
| "message (TypeError m) = m"
| "message (ValidationError m) = m"
| "message (UniqueConstraintError m) = m"
| "message (DatabaseError m) = m"
| "message (OtherError m) = m"

section \<open>DbUrlList: the database-backed queue (lib/DbUrlList.js)\<close>

text \<open>
  The six attributes that \<^verbatim>\<open>_makeUrlRow\<close> and \<^verbatim>\<open>upsert\<close> give the object they
  write: the four of the URL record, \<^verbatim>\<open>urlHash\<close> and \<^verbatim>\<open>numErrors\<close>.
\<close>

record UrlAttrs = Url +
  urlHash :: string
  numErrors :: int

text \<open>
  An object handed to the table for writing: the six attributes and, when the object
  has one, its \<^verbatim>\<open>crawled\<close> attribute. \<open>crawledGiven = None\<close> is an object without
  that attribute.
\<close>

record UrlRow = UrlAttrs +
  crawledGiven :: "bool option"

text \<open>
  A row of the table: the six attributes, the auto-increment \<^verbatim>\<open>id\<close> and the
  \<^verbatim>\<open>crawled\<close> column, which the schema declares \<^verbatim>\<open>allowNull: false\<close>, with no
  default.
\<close>

record DbRow = UrlAttrs +
  rowId :: nat
  crawled :: bool

text \<open>
  The object state of a \<^verbatim>\<open>DbUrlList\<close>: the table behind \<^verbatim>\<open>_urlTable\<close>, rows in
  insertion order, and the flag \<^verbatim>\<open>_urlTableSynced\<close>.
\<close>

record DbUrlList =
  urlTable :: "DbRow list"
  urlTableSynced :: bool

text \<open>
  \<^verbatim>\<open>_getUrlTable\<close>: syncs the schema on the first call only, sets the flag and
  resolves with the table. Syncing creates the table when it is missing and leaves its
  rows alone.
\<close>

definition getUrlTable :: "DbUrlList \<Rightarrow> DbRow list \<times> DbUrlList" where
  "getUrlTable s = (urlTable s, s\<lparr>urlTableSynced := True\<rparr>)"

text \<open>
  \<^verbatim>\<open>_makeUrlRow\<close>. The object it returns has no \<^verbatim>\<open>crawled\<close>. The SHA-1 digest
  comes from Node's \<^verbatim>\<open>crypto\<close> module; it is the parameter \<open>sha1\<close> here and in
  every function that hashes a URL.
\<close>

definition makeUrlRow :: "(string \<Rightarrow> string) \<Rightarrow> Url \<Rightarrow> UrlRow" where
  "makeUrlRow sha1 u =
     \<lparr>url = getUrl u,
      statusCode = getStatusCode u,
      errorCode = getErrorCode u,
      errorMessage = getErrorMessage u,
      urlHash = sha1 (getUrl u),
      numErrors = (if getErrorCode u = None then 0 else 1),
      crawledGiven = None\<rparr>"

subsection \<open>The table operations the queue calls (Sequelize 6 on SQLite)\<close>

text \<open>The next value of the auto-increment \<^verbatim>\<open>id\<close> column.\<close>

definition nextId :: "DbRow list \<Rightarrow> nat" where
  "nextId tbl = Suc (fold max (map rowId tbl) 0)"

text \<open>The row the table keeps for a written object that has a \<^verbatim>\<open>crawled\<close>.\<close>

definition storedRow :: "nat \<Rightarrow> bool \<Rightarrow> UrlRow \<Rightarrow> DbRow" where
  "storedRow i b r =
     \<lparr>url = url r,
      statusCode = statusCode r,
      errorCode = errorCode r,
      errorMessage = errorMessage r,
      urlHash = urlHash r,
      numErrors = numErrors r,
      rowId = i,
      crawled = b\<rparr>"

text \<open>
  What the model's validation answers to an object without \<^verbatim>\<open>crawled\<close>: the
  column allows no null and has no default.
\<close>

definition notNullViolation :: error where
  "notNullViolation = ValidationError ''notNull Violation: url.crawled cannot be null''"

text \<open>
  \<^verbatim>\<open>urlTable.create(row)\<close>: the object is validated first, then inserted; the
  unique index on \<^verbatim>\<open>urlHash\<close> refuses a second row with the same hash.
\<close>

definition tblCreate :: "UrlRow \<Rightarrow> DbRow list \<Rightarrow> error + DbRow list" where
  "tblCreate r tbl =
     (case crawledGiven r of
        None \<Rightarrow> Inl notNullViolation
      | Some b \<Rightarrow>
          if urlHash r \<in> set (map urlHash tbl)
          then Inl (UniqueConstraintError ''Validation error'')
          else Inr (tbl @ [storedRow (nextId tbl) b r]))"

text \<open>
  \<^verbatim>\<open>urlTable.bulkCreate(rows, {ignoreDuplicates: true})\<close>: one
  \<^verbatim>\<open>INSERT OR IGNORE\<close>, which skips every row that breaks a constraint, the
  \<^verbatim>\<open>NOT NULL\<close> of \<^verbatim>\<open>crawled\<close> as well as the unique index, and inserts the
  others in the order of the array.
\<close>

fun tblBulkCreate :: "UrlRow list \<Rightarrow> DbRow list \<Rightarrow> DbRow list" where
  "tblBulkCreate [] tbl = tbl"
| "tblBulkCreate (r # rs) tbl =
     (case tblCreate r tbl of
        Inl e \<Rightarrow> tblBulkCreate rs tbl
      | Inr tbl' \<Rightarrow> tblBulkCreate rs tbl')"

text \<open>\<^verbatim>\<open>urlTable.findOne({where: {urlHash: h}})\<close>.\<close>

definition findOneByHash :: "string \<Rightarrow> DbRow list \<Rightarrow> DbRow option" where
  "findOneByHash h tbl = find (\<lambda>r. urlHash r = h) tbl"

text \<open>
  \<^verbatim>\<open>urlTable.upsert(row)\<close>: the object is validated first. The unique index on
  \<^verbatim>\<open>urlHash\<close> is the key: a row with that hash takes the written attributes and
  keeps its \<^verbatim>\<open>id\<close>; without one the row is inserted.
\<close>

definition overwrite :: "UrlRow \<Rightarrow> bool \<Rightarrow> DbRow \<Rightarrow> DbRow" where
  "overwrite r b old =
     old\<lparr>url := url r,
         statusCode := statusCode r,
         errorCode := errorCode r,
         errorMessage := errorMessage r,
         numErrors := numErrors r,
         crawled := b\<rparr>"

definition tblUpsert :: "UrlRow \<Rightarrow> DbRow list \<Rightarrow> error + DbRow list" where
  "tblUpsert r tbl =
     (case crawledGiven r of
        None \<Rightarrow> Inl notNullViolation
      | Some b \<Rightarrow>
          Inr (if urlHash r \<in> set (map urlHash tbl)
               then map (\<lambda>old. if urlHash old = urlHash r then overwrite r b old else old) tbl
               else tbl @ [storedRow (nextId tbl) b r]))"

text \<open>The columns of the table; Sequelize adds the two timestamps.\<close>

definition columns :: "string list" where
  "columns = [''id'', ''urlHash'', ''url'', ''statusCode'', ''errorCode'', ''errorMessage'',
              ''numErrors'', ''crawled'', ''createdAt'', ''updatedAt'']"

text \<open>The row with the smallest id.\<close>

fun smallestId :: "DbRow list \<Rightarrow> DbRow option" where
  "smallestId [] = None"
| "smallestId (r # rs) =
     (case smallestId rs of
        None \<Rightarrow> Some r
      | Some m \<Rightarrow> if rowId r \<le> rowId m then Some r else Some m)"

text \<open>
  \<^verbatim>\<open>urlTable.findOne({where: {crawled: false}, order: ['id', ...]})\<close>, the order
  array being \<^verbatim>\<open>'id'\<close> followed by \<open>others\<close>. Sequelize reads every plain string of
  an order array as a column to order by (a direction goes with its column in a nested
  pair, \<^verbatim>\<open>[['id', 'ASC']]\<close>), and the store refuses a statement that orders by a name
  that is no column. Ids are unique, so when the statement is accepted the row found is
  the uncrawled row with the smallest id, whatever follows \<^verbatim>\<open>'id'\<close>.
\<close>

definition tblFindNextById :: "string list \<Rightarrow> DbRow list \<Rightarrow> error + DbRow option" where
  "tblFindNextById others tbl =
     (case filter (\<lambda>item. item \<notin> set columns) others of
        bad # unread \<Rightarrow> Inl (DatabaseError (''SQLITE_ERROR: no such column: url.'' @ bad))
      | [] \<Rightarrow> Inr (smallestId (filter (\<lambda>r. \<not> crawled r) tbl)))"

text \<open>
  \<^verbatim>\<open>urlTable.update({crawled: true}, {where: {id: i}})\<close>: the where clause names the
  id and nothing else. The first component is \<^verbatim>\<open>res[0]\<close>, the number of rows the
  statement affected: the rows its where clause selects, as SQLite counts them.
\<close>

definition tblUpdateCrawled :: "nat \<Rightarrow> DbRow list \<Rightarrow> nat \<times> DbRow list" where
  "tblUpdateCrawled i tbl =
     (length (filter (\<lambda>r. rowId r = i) tbl),
      map (\<lambda>r. if rowId r = i then r\<lparr>crawled := True\<rparr> else r) tbl)"

text \<open>
  Sequelize 6 returns native promises. On a native promise \<^verbatim>\<open>.catch(Class, fn)\<close> is
  \<^verbatim>\<open>Promise.prototype.catch\<close> with the class as the rejection handler; the second
  argument is not read. Sequelize's error classes are ES6 classes, and calling one
  without \<^verbatim>\<open>new\<close> throws a \<^verbatim>\<open>TypeError\<close>: every rejection becomes that one.
\<close>

definition nativeCatchEs6Class :: "string \<Rightarrow> error + 'a \<Rightarrow> error + 'a" where
  "nativeCatchEs6Class name p =
     (case p of
        Inl e \<Rightarrow>
          Inl (TypeError (''Class constructor '' @ name @ '' cannot be invoked without new''))
      | Inr v \<Rightarrow> Inr v)"

subsection \<open>insertIfNotExists, insertIfNotExistsBulk, upsert\<close>

text \<open>
  \<^verbatim>\<open>insertIfNotExists\<close>: creates the row of \<^verbatim>\<open>_makeUrlRow\<close>, with
  \<^verbatim>\<open>.catch(Sequelize.UniqueConstraintError, ...)\<close> on the promise of the creation.
  A promise is the sum \<open>error + 'a\<close>: \<open>Inl\<close> is a rejection.
\<close>

definition insertIfNotExists ::
  "(string \<Rightarrow> string) \<Rightarrow> Url \<Rightarrow> DbUrlList \<Rightarrow> (error + unit) \<times> DbUrlList" where
  "insertIfNotExists sha1 u s =
     (let (tbl, s1) = getUrlTable s in
      case nativeCatchEs6Class ''UniqueConstraintError'' (tblCreate (makeUrlRow sha1 u) tbl) of
        Inl e \<Rightarrow> (Inl e, s1)
      | Inr tbl' \<Rightarrow> (Inr (), s1\<lparr>urlTable := tbl'\<rparr>))"

text \<open>\<^verbatim>\<open>insertIfNotExistsBulk\<close>: the rows of \<^verbatim>\<open>_makeUrlRow\<close>, created in bulk.\<close>

definition insertIfNotExistsBulk ::
  "(string \<Rightarrow> string) \<Rightarrow> Url list \<Rightarrow> DbUrlList \<Rightarrow> (error + unit) \<times> DbUrlList" where
  "insertIfNotExistsBulk sha1 urls s =
     (let (tbl, s1) = getUrlTable s in
      (Inr (), s1\<lparr>urlTable := tblBulkCreate (map (makeUrlRow sha1) urls) tbl\<rparr>))"

text \<open>
  The object \<^verbatim>\<open>upsert\<close> writes. With an error code the existing row is read first,
  for its error count; without one nothing is read (\<^verbatim>\<open>record\<close> is \<^verbatim>\<open>null\<close>).
  The object has no \<^verbatim>\<open>crawled\<close>.
\<close>

definition upsertRow :: "(string \<Rightarrow> string) \<Rightarrow> Url \<Rightarrow> DbRow list \<Rightarrow> UrlRow" where
  "upsertRow sha1 u tbl =
     (let h = sha1 (getUrl u);
          found = (if getErrorCode u = None then None else findOneByHash h tbl);
          n = (case found of None \<Rightarrow> 0 | Some r \<Rightarrow> numErrors r)
      in \<lparr>url = getUrl u,
          statusCode = getStatusCode u,
          errorCode = getErrorCode u,
          errorMessage = getErrorMessage u,
          urlHash = h,
          numErrors = (if getErrorCode u = None then 0 else n + 1),
          crawledGiven = None\<rparr>)"

text \<open>\<^verbatim>\<open>upsert\<close>: nothing catches a rejection of the write.\<close>

definition upsert ::
  "(string \<Rightarrow> string) \<Rightarrow> Url \<Rightarrow> DbUrlList \<Rightarrow> (error + unit) \<times> DbUrlList" where
  "upsert sha1 u s =
     (let (tbl, s1) = getUrlTable s in
      case tblUpsert (upsertRow sha1 u tbl) tbl of
        Inl e \<Rightarrow> (Inl e, s1)
      | Inr tbl' \<Rightarrow> (Inr (), s1\<lparr>urlTable := tbl'\<rparr>))"

subsection \<open>getNextUrl\<close>

text \<open>
  \<^verbatim>\<open>getNextUrl\<close> sends two statements to the store, one after the other has
  answered: the selection and the update. A call is at one of these points, or settled.
\<close>

datatype call =
    Selecting
  | Updating DbRow
  | Resolved Url
  | Rejected error

text \<open>
  One statement of a call, on the shared table. The selection is made with
  \<^verbatim>\<open>order: ['id', 'ASC']\<close>. After it the call holds the row it read; after the
  update it retries when no row was affected and resolves with the URL of the row it
  read otherwise.
\<close>

fun getNextUrlStep :: "DbUrlList \<Rightarrow> call \<Rightarrow> DbUrlList \<times> call" where
  "getNextUrlStep s Selecting =
     (let (tbl, s1) = getUrlTable s in
      case tblFindNextById [''ASC''] tbl of
        Inl e \<Rightarrow> (s1, Rejected e)
      | Inr None \<Rightarrow> (s1, Rejected (RangeError ''The URL list has been exhausted.''))
      | Inr (Some urlRecord) \<Rightarrow> (s1, Updating urlRecord))"
| "getNextUrlStep s (Updating urlRecord) =
     (let (numAffected, tbl') = tblUpdateCrawled (rowId urlRecord) (urlTable s) in
      (s\<lparr>urlTable := tbl'\<rparr>,
       if numAffected = 0 then Selecting
       else Resolved \<lparr>url = url urlRecord,
                      statusCode = statusCode urlRecord,
                      errorCode = errorCode urlRecord,
                      errorMessage = errorMessage urlRecord\<rparr>))"
| "getNextUrlStep s (Resolved u) = (s, Resolved u)"
| "getNextUrlStep s (Rejected e) = (s, Rejected e)"

text \<open>
  Two calls in flight on one table. The schedule says whose statement the store runs
  next: \<open>False\<close> the first call's, \<open>True\<close> the second's.
\<close>

fun getNextUrl2 :: "bool list \<Rightarrow> DbUrlList \<times> call \<times> call \<Rightarrow> DbUrlList \<times> call \<times> call" where
  "getNextUrl2 [] st = st"
| "getNextUrl2 (w # ws) (s, c1, c2) =
     (if w then (let (s', c2') = getNextUrlStep s c2 in getNextUrl2 ws (s', c1, c2'))
      else (let (s', c1') = getNextUrlStep s c1 in getNextUrl2 ws (s', c1', c2)))"

text \<open>A single call, run until it settles; the fuel bounds the retries.\<close>

fun getNextUrl :: "nat \<Rightarrow> DbUrlList \<Rightarrow> call \<Rightarrow> DbUrlList \<times> call" where
  "getNextUrl 0 s c = (s, c)"
| "getNextUrl (Suc fuel) s c =
     (case c of
        Resolved u \<Rightarrow> (s, c)
      | Rejected e \<Rightarrow> (s, c)
      | _ \<Rightarrow> (let (s', c') = getNextUrlStep s c in getNextUrl fuel s' c'))"

section \<open>Crawler: the engine (the Crawler class of examples/crawler.js)\<close>

subsection \<open>Option values and the object state\<close>

text \<open>
  The values an option of the constructor can hold. Numbers are the integers
  (milliseconds and counts) and \<^verbatim>\<open>NaN\<close>; a function is a zero-argument producer.
\<close>

datatype jsval =
    Undefined
  | Null
  | VBool bool
  | VNum int
  | VNaN
  | VStr string
  | VFun "unit \<Rightarrow> jsval"

text \<open>JavaScript's truthiness, which \<^verbatim>\<open>||\<close> and \<^verbatim>\<open>!\<close> test.\<close>

fun truthy :: "jsval \<Rightarrow> bool" where
  "truthy Undefined = False"
| "truthy Null = False"
| "truthy (VBool b) = b"
| "truthy (VNum n) = (n \<noteq> 0)"
| "truthy VNaN = False"
| "truthy (VStr s) = (s \<noteq> [])"
| "truthy (VFun f) = True"

text \<open>\<^verbatim>\<open>a || b\<close>.\<close>

definition orElse :: "jsval \<Rightarrow> jsval \<Rightarrow> jsval" where
  "orElse a b = (if truthy a then a else b)"

definition DEFAULT_INTERVAL :: int where
  "DEFAULT_INTERVAL = 1000"

definition DEFAULT_CONCURRENT_REQUESTS_LIMIT :: int where
  "DEFAULT_CONCURRENT_REQUESTS_LIMIT = 5"

text \<open>
  A matcher is what \<^verbatim>\<open>addHandler\<close> takes as content type: a string (\<^verbatim>\<open>"*"\<close>
  among them) or an array of strings.
\<close>

datatype matcher = MString string | MArray "string list"

record CrawlContext =
  ctxBody :: string
  ctxUrl :: string
  ctxContentType :: string

text \<open>
  What a call of a handler comes to, once its promise (if it returns one) has settled:
  it threw or rejected, it gave an array of links, or it gave something that is not an
  array.
\<close>

datatype handler_result =
    Raises error
  | Returns "string list"
  | ReturnsOther

type_synonym handler = "CrawlContext \<Rightarrow> handler_result"

record handlerObj =
  contentType :: matcher
  handler :: handler

datatype event =
    CrawlUrl string
  | RedirectEv string "string option"
  | HandlersErrorEv error
  | LinksEv string "string list"
  | HttpErrorEv error string
  | CrawledUrl string "string option" "int option" "string option"
  | UrlListEmpty
  | UrlListComplete

text \<open>
  The fields of a crawler that the functions below read or write. \<open>'q\<close> is the state
  of the URL list, whatever implements it. \<open>robotsCache\<close> is the \<^verbatim>\<open>NodeCache\<close> without
  its expiry; \<open>events\<close> lists what was emitted, oldest first; \<open>lastRequestDate\<close> is
  in milliseconds, \<open>None\<close> before the first request.
\<close>

record 'q Crawler =
  urlList :: 'q
  interval :: jsval
  concurrentRequestsLimit :: jsval
  robotsCache :: "string \<Rightarrow> string option"
  handlers :: "handlerObj list"
  outstandingRequests :: int
  robotsIgnoreServerError :: bool
  robotsEnabled :: bool
  started :: bool
  lastRequestDate :: "int option"
  events :: "event list"

text \<open>The options of the constructor that these fields come from.\<close>

record 'q Options =
  optUrlList :: "'q option"
  optInterval :: jsval
  optConcurrentRequestsLimit :: jsval
  optRobotsIgnoreServerError :: jsval
  optRobotsEnabled :: jsval

text \<open>
  The constructor. \<open>fifo\<close> is the \<^verbatim>\<open>new FifoUrlList()\<close> it falls back to.
  \<^verbatim>\<open>_robotsIgnoreServerError\<close> is only ever negated, so its truthiness is kept.
\<close>

definition newCrawler :: "'q Options \<Rightarrow> 'q \<Rightarrow> 'q Crawler" where
  "newCrawler opts fifo =
     \<lparr>urlList = (case optUrlList opts of Some q \<Rightarrow> q | None \<Rightarrow> fifo),
      interval = orElse (optInterval opts) (VNum DEFAULT_INTERVAL),
      concurrentRequestsLimit =
        orElse (optConcurrentRequestsLimit opts) (VNum DEFAULT_CONCURRENT_REQUESTS_LIMIT),
      robotsCache = (\<lambda>k. None),
      handlers = [],
      outstandingRequests = 0,
      robotsIgnoreServerError = truthy (orElse (optRobotsIgnoreServerError opts) (VBool False)),
      robotsEnabled = (optRobotsEnabled opts \<noteq> VBool False),
      started = False,
      lastRequestDate = None,
      events = []\<rparr>"

definition getUrlList :: "'q Crawler \<Rightarrow> 'q" where
  "getUrlList c = urlList c"

definition getInterval :: "'q Crawler \<Rightarrow> jsval" where
  "getInterval c = (case interval c of VFun f \<Rightarrow> f () | v \<Rightarrow> v)"

definition setInterval :: "jsval \<Rightarrow> 'q Crawler \<Rightarrow> 'q Crawler" where
  "setInterval v c = c\<lparr>interval := v\<rparr>"

definition getConcurrentRequestsLimit :: "'q Crawler \<Rightarrow> jsval" where
  "getConcurrentRequestsLimit c = concurrentRequestsLimit c"

definition stop :: "'q Crawler \<Rightarrow> 'q Crawler" where
  "stop c = c\<lparr>started := False\<rparr>"

definition emit :: "event \<Rightarrow> 'q Crawler \<Rightarrow> 'q Crawler" where
  "emit e c = c\<lparr>events := events c @ [e]\<rparr>"

subsection \<open>addHandler\<close>

text \<open>
  The two ways the source documents of calling \<^verbatim>\<open>addHandler\<close>: with a handler
  alone, or with a content type and a handler. The first calls the second.
\<close>

datatype handler_args = Args1 handler | Args2 matcher handler

function addHandler :: "handler_args \<Rightarrow> 'q Crawler \<Rightarrow> bool \<times> 'q Crawler" where
  "addHandler (Args1 h) c = addHandler (Args2 (MString ''*'') h) c"
| "addHandler (Args2 ct h) c =
     (True, c\<lparr>handlers := handlers c @ [\<lparr>contentType = ct, handler = h\<rparr>]\<rparr>)"
  by pat_completeness auto
termination
  by (relation "measure (\<lambda>(a, c). case a of Args1 h \<Rightarrow> 1 | Args2 ct h \<Rightarrow> 0)") auto

subsection \<open>Content types and handler dispatch (_fireHandlers)\<close>

text \<open>\<^verbatim>\<open>String.prototype.indexOf\<close>: the first position of the needle, or -1.\<close>

fun strIndexOf :: "string \<Rightarrow> string \<Rightarrow> int" where
  "strIndexOf [] needle = (if needle = [] then 0 else - 1)"
| "strIndexOf (c # cs) needle =
     (if prefix needle (c # cs) then 0
      else (let i = strIndexOf cs needle in if i < 0 then - 1 else i + 1))"

text \<open>\<^verbatim>\<open>Array.prototype.indexOf\<close>.\<close>

fun arrIndexOf :: "string list \<Rightarrow> string \<Rightarrow> int" where
  "arrIndexOf [] x = - 1"
| "arrIndexOf (y # ys) x =
     (if y = x then 0
      else (let i = arrIndexOf ys x in if i < 0 then - 1 else i + 1))"

text \<open>
  What \<^verbatim>\<open>handlerContentType + "/"\<close> concatenates: a string as it is, an array as
  its elements joined by commas.
\<close>

fun joinComma :: "string list \<Rightarrow> string" where
  "joinComma [] = []"
| "joinComma [x] = x"
| "joinComma (x # y # zs) = x @ '','' @ joinComma (y # zs)"

fun matcherToString :: "matcher \<Rightarrow> string" where
  "matcherToString (MString t) = t"
| "matcherToString (MArray ts) = joinComma ts"

fun isArray :: "matcher \<Rightarrow> bool" where
  "isArray (MString t) = False"
| "isArray (MArray ts) = True"

fun elements :: "matcher \<Rightarrow> string list" where
  "elements (MString t) = []"
| "elements (MArray ts) = ts"

text \<open>The three tests of \<^verbatim>\<open>_fireHandlers\<close>, in its order.\<close>

definition handlerMatches :: "matcher \<Rightarrow> string \<Rightarrow> bool" where
  "handlerMatches handlerContentType ct =
     (if handlerContentType = MString ''*'' then True
      else if isArray handlerContentType \<and> arrIndexOf (elements handlerContentType) ct > - 1
        then True
      else if strIndexOf (ct @ ''/'') (matcherToString handlerContentType @ ''/'') = 0
        then True
      else False)"

text \<open>
  \<^verbatim>\<open>contentType.replace(/;.*$/g, "")\<close>: the dot stops at a line terminator and the
  dollar is the end of the string, so the cut is at the first semicolon that has no
  line terminator after it.
\<close>

definition lineTerminator :: "char \<Rightarrow> bool" where
  "lineTerminator d = (d = CHR 0x0A \<or> d = CHR 0x0D)"

fun stripParams :: "string \<Rightarrow> string" where
  "stripParams [] = []"
| "stripParams (c # cs) =
     (if c = CHR '';'' \<and> \<not> list_ex lineTerminator cs then []
      else c # stripParams cs)"

text \<open>
  The \<^verbatim>\<open>Promise.reduce\<close> over the registered handlers, in order: a handler that does
  not match is passed by; one that raises rejects the whole dispatch, and the handlers
  after it are not called; a result that is not an array counts as \<^verbatim>\<open>[]\<close>.
\<close>

fun reduceHandlers :: "handlerObj list \<Rightarrow> CrawlContext \<Rightarrow> string list \<Rightarrow> error + string list" where
  "reduceHandlers [] ctx arr = Inr arr"
| "reduceHandlers (handlerObj # rest) ctx arr =
     (if \<not> handlerMatches (contentType handlerObj) (ctxContentType ctx)
      then reduceHandlers rest ctx arr
      else (case handler handlerObj ctx of
              Raises err \<Rightarrow> Inl err
            | Returns subArr \<Rightarrow> reduceHandlers rest ctx (arr @ subArr)
            | ReturnsOther \<Rightarrow> reduceHandlers rest ctx (arr @ [])))"

definition fireHandlers ::
  "handlerObj list \<Rightarrow> string \<Rightarrow> string \<Rightarrow> string \<Rightarrow> error + string list" where
  "fireHandlers hs ct body pageUrl =
     reduceHandlers hs
       \<lparr>ctxBody = body, ctxUrl = pageUrl, ctxContentType = stripParams ct\<rparr> []"

text \<open>
  The handlers that a dispatch calls, by their position in the registry (\<open>i\<close> is the
  position of the first handler of the list): the same reduce, recording each call of
  \<^verbatim>\<open>handlerFun(ctx)\<close>. After a handler that raises the reduce is rejected and calls
  no other handler.
\<close>

fun calledHandlers :: "handlerObj list \<Rightarrow> CrawlContext \<Rightarrow> nat \<Rightarrow> nat list" where
  "calledHandlers [] ctx i = []"
| "calledHandlers (handlerObj # rest) ctx i =
     (if \<not> handlerMatches (contentType handlerObj) (ctxContentType ctx)
      then calledHandlers rest ctx (Suc i)
      else (case handler handlerObj ctx of
              Raises err \<Rightarrow> [i]
            | Returns subArr \<Rightarrow> i # calledHandlers rest ctx (Suc i)
            | ReturnsOther \<Rightarrow> i # calledHandlers rest ctx (Suc i)))"

subsection \<open>Promises and their catches\<close>

text \<open>
  A settled promise is the sum \<open>error + 'a\<close>: \<open>Inl\<close> is a rejection. The crawler's
  \<^verbatim>\<open>Promise\<close> is Bluebird's, but an \<^verbatim>\<open>async\<close> function returns a native promise,
  and \<^verbatim>\<open>.then\<close>, \<^verbatim>\<open>.catch\<close> and \<^verbatim>\<open>.finally\<close> of a promise return one of its
  own kind.
\<close>

datatype flavour = Bluebird | Native

text \<open>
  A function that returns a promise can also throw before it has one. \<open>Throws\<close> is
  that exception; \<open>Promise\<close> is the promise it returned, of its kind, settled.
\<close>

datatype 'a returned = Throws error | Promise flavour "error + 'a"

text \<open>
  \<^verbatim>\<open>.catch(Class, handler)\<close> with a class of \<^verbatim>\<open>lib/error\<close>. What a promise of these
  chains resolves with is \<open>Some\<close> value or \<open>None\<close> for \<^verbatim>\<open>undefined\<close>. On a Bluebird
  promise the handler runs on a rejection of that class and every other rejection is
  passed on. On a native promise \<^verbatim>\<open>catch\<close> takes one argument, the class, and calls
  it with the error; the class, called as a plain function, returns \<^verbatim>\<open>undefined\<close>,
  which the promise resolves with, and the handler is never called.
\<close>

definition catchClass ::
  "flavour \<Rightarrow> (error \<Rightarrow> bool) \<Rightarrow> (error \<Rightarrow> error + 'a option) \<Rightarrow>
     error + 'a option \<Rightarrow> error + 'a option" where
  "catchClass fl isClass h p =
     (case p of
        Inl e \<Rightarrow>
          (case fl of
             Bluebird \<Rightarrow> if isClass e then h e else Inl e
           | Native \<Rightarrow> Inr None)
      | Inr v \<Rightarrow> Inr v)"

text \<open>\<^verbatim>\<open>.catch(handler)\<close>, of either kind, runs the handler on every rejection.\<close>

definition catchAll :: "(error \<Rightarrow> error + 'a) \<Rightarrow> error + 'a \<Rightarrow> error + 'a" where
  "catchAll h p = (case p of Inl e \<Rightarrow> h e | Inr v \<Rightarrow> Inr v)"

fun isRobotsNotAllowedError :: "error \<Rightarrow> bool" where
  "isRobotsNotAllowedError (RobotsNotAllowedError m) = True"
| "isRobotsNotAllowedError e = False"

fun isHttpError :: "error \<Rightarrow> bool" where
  "isHttpError (HttpError m sc) = True"
| "isHttpError e = False"

fun httpStatusCode :: "error \<Rightarrow> int" where
  "httpStatusCode (HttpError m sc) = sc"
| "httpStatusCode e = 0"

fun isRequestError :: "error \<Rightarrow> bool" where
  "isRequestError (RequestError m) = True"
| "isRequestError e = False"

fun isHandlersError :: "error \<Rightarrow> bool" where
  "isHandlersError (HandlersError m) = True"
| "isHandlersError e = False"

fun isRangeError :: "error \<Rightarrow> bool" where
  "isRangeError (RangeError m) = True"
| "isRangeError e = False"

subsection \<open>Fetching (_downloadUrl)\<close>

text \<open>A number as JavaScript concatenates it into a string: decimal digits.\<close>

definition digitChar :: "nat \<Rightarrow> char" where
  "digitChar d = ''0123456789'' ! d"

function showNat :: "nat \<Rightarrow> string" where
  "showNat n = (if n < 10 then [digitChar n] else showNat (n div 10) @ [digitChar (n mod 10)])"
  by pat_completeness auto
termination
  by (relation "measure (\<lambda>n. n)") auto

declare showNat.simps [simp del]

definition showInt :: "int \<Rightarrow> string" where
  "showInt i = (if i < 0 then ''-'' @ showNat (nat (- i)) else showNat (nat i))"

text \<open>
  The parts of an axios response the crawler reads: \<^verbatim>\<open>status\<close>, the
  \<^verbatim>\<open>content-type\<close> and \<^verbatim>\<open>location\<close> headers (\<open>None\<close> when absent) and
  \<^verbatim>\<open>data\<close>.
\<close>

record response =
  status :: int
  contentTypeHeader :: "string option"
  locationHeader :: "string option"
  data :: string

text \<open>
  What a request comes to: it fails, with a message, or it gives a response, which the
  source also tests for being empty.
\<close>

datatype fetched = Fails string | Gives "response option"

text \<open>
  Everything outside the repository that the crawler calls: the network, which answers
  a request (by URL and the \<^verbatim>\<open>followRedirect\<close> entry of the config) or fails; the
  \<^verbatim>\<open>validateStatus\<close> of the config, which is axios's own unless the request options
  give another; Node's URL parser as \<^verbatim>\<open>_getRobotsUrl\<close> uses it (\<open>None\<close> when
  \<^verbatim>\<open>new URL(url)\<close> throws); the robots parser's verdict (by robots URL, robots body
  and page URL); \<^verbatim>\<open>mime.lookup\<close> (\<open>None\<close> for its \<^verbatim>\<open>false\<close>); \<^verbatim>\<open>url.resolve\<close>;
  and the URL list: the kind of promise its methods return in a state \<open>'q\<close> of the
  list, and its methods, each giving the promise settled and the state of the list
  after the call. The user agent, the other request options and the content-length cap
  only go into the config that \<^verbatim>\<open>_downloadUrl\<close> hands to axios, and the user agent to
  the robots parser: they are part of \<open>network\<close> and \<open>robotsIsAllowed\<close> here.
\<close>

record 'q env =
  network :: "string \<Rightarrow> nat \<Rightarrow> fetched"
  validateStatus :: "int \<Rightarrow> bool"
  robotsUrlOf :: "string \<Rightarrow> string option"
  robotsIsAllowed :: "string \<Rightarrow> string \<Rightarrow> string \<Rightarrow> bool"
  mimeLookup :: "string \<Rightarrow> string option"
  urlResolve :: "string \<Rightarrow> string option \<Rightarrow> error + string"
  listFlavour :: "'q \<Rightarrow> flavour"
  listInsertIfNotExists :: "Url \<Rightarrow> 'q \<Rightarrow> (error + unit) \<times> 'q"
  listInsertIfNotExistsBulk :: "(Url list \<Rightarrow> 'q \<Rightarrow> (error + unit) \<times> 'q) option"
  listGetNextUrl :: "'q \<Rightarrow> (error + Url) \<times> 'q"
  listUpsert :: "Url \<Rightarrow> 'q \<Rightarrow> (error + unit) \<times> 'q"

text \<open>
  The \<^verbatim>\<open>validateStatus\<close> of axios when the config gives none: the statuses from 200
  to 299.
\<close>

definition defaultValidateStatus :: "int \<Rightarrow> bool" where
  "defaultValidateStatus s = (200 \<le> s \<and> s < 300)"

text \<open>
  \<^verbatim>\<open>await axios.get(url, config)\<close>: axios throws when the request fails and when
  \<^verbatim>\<open>validateStatus\<close> refuses the status of the response.
\<close>

definition axiosGet :: "'q env \<Rightarrow> string \<Rightarrow> nat \<Rightarrow> fetched" where
  "axiosGet env u n =
     (case network env u n of
        Fails m \<Rightarrow> Fails m
      | Gives None \<Rightarrow> Gives None
      | Gives (Some r) \<Rightarrow>
          if validateStatus env (status r) then Gives (Some r)
          else Fails (''Request failed with status code '' @ showInt (status r)))"

text \<open>\<^verbatim>\<open>_downloadUrl\<close>, an \<^verbatim>\<open>async\<close> function: its promise is a native one.\<close>

definition downloadUrl :: "'q env \<Rightarrow> string \<Rightarrow> bool \<Rightarrow> error + response" where
  "downloadUrl env u followRedirect =
     (case axiosGet env u (if followRedirect then 5 else 0) of
        Fails m \<Rightarrow> Inl (RequestError (''A request error occurred. '' @ m))
      | Gives None \<Rightarrow> Inl (RequestError ''A request error occurred.'')
      | Gives (Some r) \<Rightarrow>
          if status r \<ge> 400
          then Inl (HttpError (''HTTP status code is '' @ showInt (status r)) (status r))
          else Inr r)"

subsection \<open>robots.txt (_getOrDownloadRobots, _downloadAndCheckRobots)\<close>

text \<open>
  The handler of the \<^verbatim>\<open>.catch(error.HttpError, ...)\<close> of \<^verbatim>\<open>_getOrDownloadRobots\<close>.
  What it hands to the \<^verbatim>\<open>.then\<close> after it is read there as \<^verbatim>\<open>response.data\<close>:
  a value of that chain is the \<^verbatim>\<open>data\<close> of an object, \<open>None\<close> for an object that
  has no \<^verbatim>\<open>data\<close>, as the object \<^verbatim>\<open>{statusCode: 200, body: ''}\<close> that the handler
  substitutes.
\<close>

definition robotsCatchHttpError :: "bool \<Rightarrow> error \<Rightarrow> error + string option option" where
  "robotsCatchHttpError ignoreServerError err =
     (let robotsStatusCode = httpStatusCode err in
      if robotsStatusCode = 500 \<and> \<not> ignoreServerError
      then Inl (RobotsNotAllowedError
             (''No crawling is allowed because robots.txt could not be crawled. Status code ''
              @ showInt robotsStatusCode))
      else Inr (Some None))"

text \<open>
  The last \<^verbatim>\<open>.then\<close>: \<^verbatim>\<open>response.data.toString()\<close> throws a \<^verbatim>\<open>TypeError\<close> when
  the response is \<^verbatim>\<open>undefined\<close> and when it has no \<^verbatim>\<open>data\<close>; otherwise the body is
  cached and returned.
\<close>

definition robotsStore ::
  "string \<Rightarrow> error + string option option \<Rightarrow> 'q Crawler \<Rightarrow> (error + string) \<times> 'q Crawler" where
  "robotsStore robotsUrl p c =
     (case p of
        Inl e \<Rightarrow> (Inl e, c)
      | Inr None \<Rightarrow>
          (Inl (TypeError ''Cannot read properties of undefined (reading 'data')''), c)
      | Inr (Some None) \<Rightarrow>
          (Inl (TypeError ''Cannot read properties of undefined (reading 'toString')''), c)
      | Inr (Some (Some robotsTxt)) \<Rightarrow>
          (Inr robotsTxt, c\<lparr>robotsCache := (robotsCache c)(robotsUrl \<mapsto> robotsTxt)\<rparr>))"

text \<open>
  \<^verbatim>\<open>_getOrDownloadRobots\<close>. A cached body is returned in a Bluebird promise
  (\<^verbatim>\<open>Promise.resolve\<close>). Otherwise the chain starts from the promise of the URL
  list's \<^verbatim>\<open>insertIfNotExists\<close> and is of its kind; the download is not made when the
  insertion is rejected.
\<close>

definition getOrDownloadRobots ::
  "'q env \<Rightarrow> 'q Crawler \<Rightarrow> string \<Rightarrow> string returned \<times> 'q Crawler" where
  "getOrDownloadRobots env c u =
     (case robotsUrlOf env u of
        None \<Rightarrow> (Throws (TypeError ''Invalid URL''), c)
      | Some robotsUrl \<Rightarrow>
          (case robotsCache c robotsUrl of
             Some robotsTxt \<Rightarrow> (Promise Bluebird (Inr robotsTxt), c)
           | None \<Rightarrow>
               (let fl = listFlavour env (getUrlList c);
                    (inserted, q) = listInsertIfNotExists env (newUrl robotsUrl) (getUrlList c);
                    c1 = c\<lparr>urlList := q\<rparr>;
                    downloaded = (case inserted of
                                    Inl e \<Rightarrow> Inl e
                                  | Inr x \<Rightarrow> downloadUrl env robotsUrl True);
                    caught = catchClass fl isHttpError
                               (robotsCatchHttpError (robotsIgnoreServerError c))
                               (map_sum id (\<lambda>r. Some (Some (data r))) downloaded);
                    (p, c2) = robotsStore robotsUrl caught c1
                in (Promise fl p, c2))))"

definition robotsNotAllowedMessage :: "string \<Rightarrow> string" where
  "robotsNotAllowedMessage u =
     ''The URL '' @ u @ '' is not allowed to be crawled due to robots.txt exclusion''"

text \<open>\<^verbatim>\<open>_downloadAndCheckRobots\<close>: a \<^verbatim>\<open>.then\<close> on the promise of the robots body.\<close>

definition downloadAndCheckRobots ::
  "'q env \<Rightarrow> 'q Crawler \<Rightarrow> string \<Rightarrow> unit returned \<times> 'q Crawler" where
  "downloadAndCheckRobots env c u =
     (case getOrDownloadRobots env c u of
        (Throws e, c1) \<Rightarrow> (Throws e, c1)
      | (Promise fl (Inl e), c1) \<Rightarrow> (Promise fl (Inl e), c1)
      | (Promise fl (Inr robotsTxt), c1) \<Rightarrow>
          if robotsTxt = [] then (Promise fl (Inr ()), c1)
          else (case robotsUrlOf env u of
                  None \<Rightarrow> (Promise fl (Inl (TypeError ''Invalid URL'')), c1)
                | Some robotsUrl \<Rightarrow>
                    if \<not> robotsIsAllowed env robotsUrl robotsTxt u
                    then (Promise fl (Inl (RobotsNotAllowedError (robotsNotAllowedMessage u))),
                          c1)
                    else (Promise fl (Inr ()), c1)))"

subsection \<open>Processing one URL (_processUrl)\<close>

text \<open>
  \<^verbatim>\<open>response.headers['content-type'] || mime.lookup(url)\<close>; \<open>None\<close> is the
  \<^verbatim>\<open>false\<close> of a lookup that knows no type.
\<close>

definition contentTypeOf :: "'q env \<Rightarrow> string \<Rightarrow> response \<Rightarrow> string option" where
  "contentTypeOf env u r =
     (case contentTypeHeader r of
        Some h \<Rightarrow> if h \<noteq> [] then Some h else mimeLookup env u
      | None \<Rightarrow> mimeLookup env u)"

text \<open>
  The first \<^verbatim>\<open>.then\<close> after the download: a redirect gives its resolved
  destination as the only link, anything else goes to the handlers. The response is
  kept for the status the last step reads. (\<^verbatim>\<open>_downloadUrl\<close> never resolves without
  a response, so the \<^verbatim>\<open>!response\<close> test of the source has no case here.) A content
  type that is \<^verbatim>\<open>false\<close> has no \<^verbatim>\<open>replace\<close>: \<^verbatim>\<open>_fireHandlers\<close> throws a
  \<^verbatim>\<open>TypeError\<close> before the handlers' own catch is attached. That catch is on the
  Bluebird promise of \<^verbatim>\<open>_fireHandlers\<close> and takes the handler alone.
\<close>

definition dispatchStage ::
  "'q env \<Rightarrow> string \<Rightarrow> error + response \<Rightarrow> 'q Crawler \<Rightarrow>
     (error + response \<times> string list) \<times> 'q Crawler" where
  "dispatchStage env u downloaded c =
     (case downloaded of
        Inl e \<Rightarrow> (Inl e, c)
      | Inr resp \<Rightarrow>
          (let ct = contentTypeOf env u resp;
               statusCode = status resp;
               location = locationHeader resp
           in if statusCode \<ge> 300 \<and> statusCode < 400
              then (map_sum id (\<lambda>l. (resp, [l])) (urlResolve env u location),
                    emit (RedirectEv u location) c)
              else (case ct of
                      None \<Rightarrow> (Inl (TypeError ''contentType.replace is not a function''), c)
                    | Some t \<Rightarrow>
                        (case fireHandlers (handlers c) t (data resp) u of
                           Inl err \<Rightarrow>
                             (Inl (HandlersError (''A handlers error occured. '' @ message err)),
                              emit (HandlersErrorEv err) c)
                         | Inr links \<Rightarrow> (Inr (resp, links), c)))))"

text \<open>
  \<^verbatim>\<open>Promise.map(links, ...)\<close>: every insertion is made, whatever another comes to,
  and the promise rejects when one failed (here with the first failure in the order
  of the links).
\<close>

fun insertEach ::
  "(Url \<Rightarrow> 'q \<Rightarrow> (error + unit) \<times> 'q) \<Rightarrow> string list \<Rightarrow> 'q \<Rightarrow> error option \<times> 'q" where
  "insertEach ins [] q = (None, q)"
| "insertEach ins (link # links) q =
     (case ins (newUrl link) q of
        (Inl e, q1) \<Rightarrow> (Some e, snd (insertEach ins links q1))
      | (Inr x, q1) \<Rightarrow> insertEach ins links q1)"

text \<open>The second \<^verbatim>\<open>.then\<close>: the links are announced and inserted, in bulk when the
  URL list has a bulk insertion.\<close>

definition insertStage ::
  "'q env \<Rightarrow> string \<Rightarrow> error + response \<times> string list \<Rightarrow> 'q Crawler \<Rightarrow>
     (error + response) \<times> 'q Crawler" where
  "insertStage env u dispatched c =
     (case dispatched of
        Inl e \<Rightarrow> (Inl e, c)
      | Inr (resp, links) \<Rightarrow>
          (let c1 = emit (LinksEv u links) c in
           case listInsertIfNotExistsBulk env of
             None \<Rightarrow>
               (let (failure, q) = insertEach (listInsertIfNotExists env) links (getUrlList c1)
                in (case failure of Some e \<Rightarrow> Inl e | None \<Rightarrow> Inr resp, c1\<lparr>urlList := q\<rparr>))
           | Some bulk \<Rightarrow>
               (case bulk (map newUrl links) (getUrlList c1) of
                  (Inl e, q) \<Rightarrow> (Inl e, c1\<lparr>urlList := q\<rparr>)
                | (Inr x, q) \<Rightarrow> (Inr resp, c1\<lparr>urlList := q\<rparr>))))"

text \<open>
  The third \<^verbatim>\<open>.then\<close> and the five catches after it, in the order of the source, on
  a chain of the kind \<open>fl\<close>. A catch whose handler runs resolves with a record, so
  the catches after it pass that record on. The \<^verbatim>\<open>httpError\<close> event is emitted by
  the handler of the second catch.
\<close>

definition outcomeStage ::
  "flavour \<Rightarrow> string \<Rightarrow> error + response \<Rightarrow> 'q Crawler \<Rightarrow>
     (error + Url option) \<times> 'q Crawler" where
  "outcomeStage fl u inserted c =
     (let p0 = map_sum id
                 (\<lambda>resp. Some \<lparr>url = u, statusCode = Some (status resp), errorCode = None,
                               errorMessage = None\<rparr>) inserted;
          p1 = catchClass fl isRobotsNotAllowedError
                 (\<lambda>err. Inr (Some \<lparr>url = u, statusCode = None,
                                    errorCode = Some ''ROBOTS_NOT_ALLOWED'',
                                    errorMessage = Some (message err)\<rparr>)) p0;
          c1 = (case p1 of
                  Inl err \<Rightarrow> if isHttpError err then emit (HttpErrorEv err u) c else c
                | Inr v \<Rightarrow> c);
          p2 = catchClass fl isHttpError
                 (\<lambda>err. Inr (Some \<lparr>url = u, statusCode = Some (httpStatusCode err),
                                    errorCode = Some ''HTTP_ERROR'',
                                    errorMessage = None\<rparr>)) p1;
          p3 = catchClass fl isRequestError
                 (\<lambda>err. Inr (Some \<lparr>url = u, statusCode = None,
                                    errorCode = Some ''REQUEST_ERROR'',
                                    errorMessage = Some (message err)\<rparr>)) p2;
          p4 = catchClass fl isHandlersError
                 (\<lambda>err. Inr (Some \<lparr>url = u, statusCode = None,
                                    errorCode = Some ''HANDLERS_ERROR'',
                                    errorMessage = Some (message err)\<rparr>)) p3;
          p5 = catchAll
                 (\<lambda>err. Inr (Some \<lparr>url = u, statusCode = None,
                                    errorCode = Some ''OTHER_ERROR'',
                                    errorMessage = Some (message err)\<rparr>)) p4
      in (p5, c1))"

text \<open>
  The robots stage of \<^verbatim>\<open>_processUrl\<close>:
  \<^verbatim>\<open>_downloadAndCheckRobots(url).catch(RobotsNotAllowedError, err => Promise.reject(err)).catch(() => { }).then(() => this._downloadUrl(url, false))\<close>.
  The handler of the first catch rejects again with the error it caught; the second
  catch is attached to the promise the first one returns, takes every rejection and
  resolves with \<^verbatim>\<open>undefined\<close>. The chain is of the kind of the promise of
  \<^verbatim>\<open>_downloadAndCheckRobots\<close>.
\<close>

definition robotsStage ::
  "'q env \<Rightarrow> 'q Crawler \<Rightarrow> string \<Rightarrow> response returned \<times> 'q Crawler" where
  "robotsStage env c u =
     (case downloadAndCheckRobots env c u of
        (Throws e, c1) \<Rightarrow> (Throws e, c1)
      | (Promise fl checked, c1) \<Rightarrow>
          (let kept = catchClass fl isRobotsNotAllowedError (\<lambda>err. Inl err)
                        (map_sum id Some checked);
               swallowed = catchAll (\<lambda>err. Inr None) kept
           in (Promise fl (case swallowed of
                             Inl e \<Rightarrow> Inl e
                           | Inr x \<Rightarrow> downloadUrl env u False), c1)))"

text \<open>
  The last \<^verbatim>\<open>.then\<close>, which reads the record (\<^verbatim>\<open>url.getUrl()\<close> throws a
  \<^verbatim>\<open>TypeError\<close> when it is handed \<^verbatim>\<open>undefined\<close>), emits \<^verbatim>\<open>crawledurl\<close> and
  returns the record.
\<close>

definition crawledStage ::
  "error + Url option \<Rightarrow> 'q Crawler \<Rightarrow> (error + Url) \<times> 'q Crawler" where
  "crawledStage outcome c =
     (case outcome of
        Inl e \<Rightarrow> (Inl e, c)
      | Inr None \<Rightarrow>
          (Inl (TypeError ''Cannot read properties of undefined (reading 'getUrl')''), c)
      | Inr (Some result) \<Rightarrow>
          (Inr result,
           emit (CrawledUrl (getUrl result) (getErrorCode result)
                   (getStatusCode result) (getErrorMessage result)) c))"

text \<open>
  Everything \<^verbatim>\<open>_processUrl\<close> chains onto the download promise, a chain of the
  kind \<open>fl\<close> of that promise: the three \<^verbatim>\<open>.then\<close>, the five catches and the last
  \<^verbatim>\<open>.then\<close>.
\<close>

definition afterDownload ::
  "'q env \<Rightarrow> flavour \<Rightarrow> string \<Rightarrow> error + response \<Rightarrow> 'q Crawler \<Rightarrow>
     (error + Url) \<times> 'q Crawler" where
  "afterDownload env fl u downloaded c1 =
     (let (dispatched, c2) = dispatchStage env u downloaded c1;
          (inserted, c3) = insertStage env u dispatched c2;
          (outcome, c4) = outcomeStage fl u inserted c3
      in crawledStage outcome c4)"

text \<open>
  \<^verbatim>\<open>_processUrl\<close>. With robots checking off the download promise is the native
  promise of \<^verbatim>\<open>_downloadUrl\<close> itself.
\<close>

definition processUrl :: "'q env \<Rightarrow> 'q Crawler \<Rightarrow> string \<Rightarrow> Url returned \<times> 'q Crawler" where
  "processUrl env c u =
     (let c0 = emit (CrawlUrl u) c in
      case (if robotsEnabled c0 then robotsStage env c0 u
            else (Promise Native (downloadUrl env u False), c0)) of
        (Throws e, c1) \<Rightarrow> (Throws e, c1)
      | (Promise fl downloaded, c1) \<Rightarrow>
          (let (settled, c2) = afterDownload env fl u downloaded c1
           in (Promise fl settled, c2)))"

subsection \<open>The tick (_crawlTick, _getNextRequestDate, _scheduleNextTick)\<close>

text \<open>
  Dates are milliseconds. A \<^verbatim>\<open>Date\<close> holds a time of at most 8.64e15 ms on either
  side of the epoch; \<^verbatim>\<open>new Date(x)\<close> for any other number is an Invalid Date, whose
  time is \<^verbatim>\<open>NaN\<close>.
\<close>

definition MAX_DATE :: int where
  "MAX_DATE = 8640000000000000"

definition validDate :: "int \<Rightarrow> bool" where
  "validDate x = (- MAX_DATE \<le> x \<and> x \<le> MAX_DATE)"

text \<open>
  \<^verbatim>\<open>_getNextRequestDate\<close>. \<open>iv\<close> is the number \<^verbatim>\<open>getInterval()\<close> returned to the
  call, \<open>t\<close> the clock as \<^verbatim>\<open>new Date()\<close> read it. The result is the time of the
  date, \<open>None\<close> for an Invalid Date.
\<close>

definition getNextRequestDate :: "'q Crawler \<Rightarrow> int \<Rightarrow> int \<Rightarrow> int option" where
  "getNextRequestDate c iv t =
     (case lastRequestDate c of
        None \<Rightarrow> Some t
      | Some lastRequest \<Rightarrow>
          if validDate (lastRequest + iv) then Some (lastRequest + iv) else None)"

text \<open>
  \<^verbatim>\<open>nextRequestDate - nowDate\<close>: \<open>None\<close> is the \<^verbatim>\<open>NaN\<close> that an Invalid Date
  gives.
\<close>

definition dateDifference :: "int option \<Rightarrow> int \<Rightarrow> int option" where
  "dateDifference nextRequestDate nowDate =
     (case nextRequestDate of None \<Rightarrow> None | Some n \<Rightarrow> Some (n - nowDate))"

text \<open>\<^verbatim>\<open>x > 0\<close>, which is false of \<^verbatim>\<open>NaN\<close>.\<close>

definition positive :: "int option \<Rightarrow> bool" where
  "positive x = (case x of None \<Rightarrow> False | Some d \<Rightarrow> d > 0)"

text \<open>
  The delay \<^verbatim>\<open>_scheduleNextTick\<close> gives \<^verbatim>\<open>setTimeout\<close>;
  \<^verbatim>\<open>Math.max(0, NaN)\<close> is \<^verbatim>\<open>NaN\<close>.
\<close>

definition scheduleNextTick :: "'q Crawler \<Rightarrow> int \<Rightarrow> int \<Rightarrow> int \<Rightarrow> int option" where
  "scheduleNextTick c iv t1 t2 =
     (case dateDifference (getNextRequestDate c iv t1) t2 of
        None \<Rightarrow> None
      | Some d \<Rightarrow> Some (max 0 d))"

text \<open>
  What a call of \<^verbatim>\<open>_crawlTick\<close> does before it returns: nothing when the crawler is
  stopped; schedule the next tick when the next request date is in the future; else
  write \<^verbatim>\<open>_lastRequestDate\<close> and ask the URL list for the next URL. \<open>t1\<close> is the
  clock read inside \<^verbatim>\<open>_getNextRequestDate\<close>, \<open>t2\<close> the tick's own \<^verbatim>\<open>nowDate\<close>.
\<close>

datatype tick = Stopped | Rescheduled | Dequeues

definition crawlTick :: "'q Crawler \<Rightarrow> int \<Rightarrow> int \<Rightarrow> int \<Rightarrow> tick \<times> 'q Crawler" where
  "crawlTick c iv t1 t2 =
     (if \<not> started c then (Stopped, c)
      else (let nextRequestDate = getNextRequestDate c iv t1;
                nowDate = t2
            in if positive (dateDifference nextRequestDate nowDate) then (Rescheduled, c)
               else (Dequeues, c\<lparr>lastRequestDate := Some nowDate\<rparr>)))"

text \<open>
  The \<^verbatim>\<open>.catch(RangeError, ...)\<close> of the tick, on a chain of the kind \<open>fl\<close>. On a
  Bluebird promise a \<^verbatim>\<open>RangeError\<close>, wherever it comes from, is taken for the empty
  list. On a native promise \<^verbatim>\<open>RangeError\<close> itself is the handler: called with the
  error it returns a new \<^verbatim>\<open>RangeError\<close>, which the promise resolves with, and no
  event is emitted.
\<close>

definition catchRangeError ::
  "flavour \<Rightarrow> error + unit \<Rightarrow> 'q Crawler \<Rightarrow> (error + unit) \<times> 'q Crawler" where
  "catchRangeError fl p c =
     (case p of
        Inl e \<Rightarrow>
          (case fl of
             Bluebird \<Rightarrow>
               if isRangeError e
               then (Inr (),
                     (let c1 = emit UrlListEmpty c in
                      if outstandingRequests c1 = 0 then emit UrlListComplete c1 else c1))
               else (Inl e, c)
           | Native \<Rightarrow> (Inr (), c))
      | Inr x \<Rightarrow> (Inr x, c))"

text \<open>
  What follows a tick that dequeues, once the promises have settled. The chain is of
  the kind of the promise of \<^verbatim>\<open>getNextUrl\<close>. The counter is decremented by a
  \<^verbatim>\<open>finally\<close> on the promise of \<^verbatim>\<open>_processUrl\<close>, which does not exist when
  \<^verbatim>\<open>_processUrl\<close> throws.
\<close>

definition crawlTickRequest :: "'q env \<Rightarrow> 'q Crawler \<Rightarrow> (error + unit) \<times> 'q Crawler" where
  "crawlTickRequest env c =
     (let fl = listFlavour env (getUrlList c) in
      case listGetNextUrl env (getUrlList c) of
        (Inl e, q) \<Rightarrow> catchRangeError fl (Inl e) (c\<lparr>urlList := q\<rparr>)
      | (Inr urlObj, q) \<Rightarrow>
          (let c1 = c\<lparr>urlList := q, outstandingRequests := outstandingRequests c + 1\<rparr> in
           case processUrl env c1 (getUrl urlObj) of
             (Throws e, c2) \<Rightarrow> catchRangeError fl (Inl e) c2
           | (Promise fl' (Inl e), c2) \<Rightarrow>
               catchRangeError fl (Inl e)
                 (c2\<lparr>outstandingRequests := outstandingRequests c2 - 1\<rparr>)
           | (Promise fl' (Inr resultUrl), c2) \<Rightarrow>
               (case listUpsert env resultUrl (getUrlList c2) of
                  (Inl e, q2) \<Rightarrow>
                    catchRangeError fl (Inl e)
                      (c2\<lparr>urlList := q2,
                          outstandingRequests := outstandingRequests c2 - 1\<rparr>)
                | (Inr x, q2) \<Rightarrow>
                    catchRangeError fl (Inr ())
                      (c2\<lparr>urlList := q2,
                          outstandingRequests := outstandingRequests c2 - 1\<rparr>))))"

text \<open>
  What happens to a started or stopped crawler over time: ticks (of any chain, each
  with the interval and the clock it read), and calls of \<^verbatim>\<open>stop\<close> and of
  \<^verbatim>\<open>start\<close>, whose own ticks are the ticks that follow it.
\<close>

datatype step = Tick int int int | Stop | Start

text \<open>
  The request starts of a run: the date each tick wrote to \<^verbatim>\<open>_lastRequestDate\<close>,
  with the interval that tick read, in the order of the writes.
\<close>

fun requestStarts :: "'q Crawler \<Rightarrow> step list \<Rightarrow> (int \<times> int) list" where
  "requestStarts c [] = []"
| "requestStarts c (Tick iv t1 t2 # steps) =
     (case crawlTick c iv t1 t2 of
        (Dequeues, c1) \<Rightarrow> (t2, iv) # requestStarts c1 steps
      | (other, c1) \<Rightarrow> requestStarts c1 steps)"
| "requestStarts c (Stop # steps) = requestStarts (stop c) steps"
| "requestStarts c (Start # steps) = requestStarts (c\<lparr>started := True\<rparr>) steps"

text \<open>
  Pacing of a sequence of request starts, the last one before it being \<open>before\<close>
  (\<open>None\<close> when there was none): each start is at least its own interval after the
  start before it, when that start plus the interval is a valid date.
\<close>

fun pacedFrom :: "int option \<Rightarrow> (int \<times> int) list \<Rightarrow> bool" where
  "pacedFrom before [] = True"
| "pacedFrom before ((t, iv) # rest) =
     ((case before of
         None \<Rightarrow> True
       | Some prev \<Rightarrow> validDate (prev + iv) \<longrightarrow> t - prev \<ge> iv) \<and>
      pacedFrom (Some t) rest)"

text \<open>Every tick of the run read the interval \<open>iv0\<close>.\<close>

fun readsInterval :: "int \<Rightarrow> step \<Rightarrow> bool" where
  "readsInterval iv0 (Tick iv t1 t2) = (iv = iv0)"
| "readsInterval iv0 Stop = True"
| "readsInterval iv0 Start = True"

text \<open>The date a tick of the run read as \<^verbatim>\<open>nowDate\<close>, plus \<open>iv0\<close>, is a valid date.\<close>

fun nextDateValid :: "int \<Rightarrow> step \<Rightarrow> bool" where
  "nextDateValid iv0 (Tick iv t1 t2) = validDate (t2 + iv0)"
| "nextDateValid iv0 Stop = True"
| "nextDateValid iv0 Start = True"

text \<open>Dates that are at least \<open>iv0\<close> apart, each from the one before it.\<close>

fun separated :: "int \<Rightarrow> int list \<Rightarrow> bool" where
  "separated iv0 [] = True"
| "separated iv0 [t] = True"
| "separated iv0 (t # t' # ts) = (t' - t \<ge> iv0 \<and> separated iv0 (t' # ts))"

subsection \<open>The dispatch in the words of the specification\<close>

text \<open>
  The handlers whose matcher matches the content type of the context, in registration
  order; what one of them contributes (its list, or nothing when it did not return a
  list); whether it raises.
\<close>

definition matchingHandlers :: "handlerObj list \<Rightarrow> CrawlContext \<Rightarrow> handlerObj list" where
  "matchingHandlers hs ctx =
     filter (\<lambda>h. handlerMatches (contentType h) (ctxContentType ctx)) hs"

definition contribution :: "CrawlContext \<Rightarrow> handlerObj \<Rightarrow> string list" where
  "contribution ctx h = (case handler h ctx of Returns links \<Rightarrow> links | other \<Rightarrow> [])"

definition raises :: "CrawlContext \<Rightarrow> handlerObj \<Rightarrow> bool" where
  "raises ctx h = (case handler h ctx of Raises err \<Rightarrow> True | other \<Rightarrow> False)"

subsection \<open>A site and a crawler for the examples\<close>

text \<open>
  One origin, \<^verbatim>\<open>http://a\<close>, reached through the network \<open>net\<close> with axios's own
  \<^verbatim>\<open>validateStatus\<close>; a robots parser that allows everything; no MIME table; a URL
  list that is the list of its URLs, in insertion order and without duplicates, with no
  bulk insertion, whose methods return Bluebird promises.
\<close>

definition exampleEnv :: "(string \<Rightarrow> nat \<Rightarrow> fetched) \<Rightarrow> string list env" where
  "exampleEnv net =
     \<lparr>network = net,
      validateStatus = defaultValidateStatus,
      robotsUrlOf = (\<lambda>u. Some ''http://a/robots.txt''),
      robotsIsAllowed = (\<lambda>robotsUrl robotsTxt u. True),
      mimeLookup = (\<lambda>u. None),
      urlResolve = (\<lambda>u location.
                      case location of
                        None \<Rightarrow> Inl (TypeError ''The url argument must be of type string'')
                      | Some l \<Rightarrow> Inr l),
      listFlavour = (\<lambda>q. Bluebird),
      listInsertIfNotExists = (\<lambda>x q. (Inr (), if url x \<in> set q then q else q @ [url x])),
      listInsertIfNotExistsBulk = None,
      listGetNextUrl = (\<lambda>q. case q of
                               [] \<Rightarrow> (Inl (RangeError ''The URL list has been exhausted.''), [])
                             | x # xs \<Rightarrow> (Inr (newUrl x), xs)),
      listUpsert = (\<lambda>x q. (Inr (), q))\<rparr>"

text \<open>The same site, with request options whose \<^verbatim>\<open>validateStatus\<close> accepts every
  status.\<close>

definition lenientEnv :: "(string \<Rightarrow> nat \<Rightarrow> fetched) \<Rightarrow> string list env" where
  "lenientEnv net = (exampleEnv net)\<lparr>validateStatus := (\<lambda>s. True)\<rparr>"

text \<open>A crawler built with defaults, robots checking on or off.\<close>

definition exampleCrawler :: "bool \<Rightarrow> string list Crawler" where
  "exampleCrawler robots =
     newCrawler
       \<lparr>optUrlList = None, optInterval = Undefined, optConcurrentRequestsLimit = Undefined,
        optRobotsIgnoreServerError = Undefined, optRobotsEnabled = VBool robots\<rparr> []"


text \<open>A page served with status 200, as HTML, and the same page as a 404.\<close>

definition okPage :: response where
  "okPage = \<lparr>status = 200, contentTypeHeader = Some ''text/html; charset=utf8'',
             locationHeader = None, data = ''<html></html>''\<rparr>"

definition missingPage :: response where
  "missingPage = \<lparr>status = 404, contentTypeHeader = Some ''text/html'',
                  locationHeader = None, data = []\<rparr>"

text \<open>
  A database with one row that was written to it directly: uncrawled, with id 1. The
  hash function of the examples is the identity.
\<close>

definition seededList :: DbUrlList where
  "seededList =
     \<lparr>urlTable = [\<lparr>url = ''http://a/'', statusCode = None, errorCode = None,
                   errorMessage = None, urlHash = ''http://a/'', numErrors = 0,
                   rowId = 1, crawled = False\<rparr>],
      urlTableSynced = False\<rparr>"

text \<open>A database whose table is empty.\<close>

definition emptyList :: DbUrlList where
  "emptyList = \<lparr>urlTable = [], urlTableSynced = False\<rparr>"

section \<open>Properties of DbUrlList\<close>

lemma tblFindNextById_ASC:
  "tblFindNextById [''ASC''] tbl = Inl (DatabaseError ''SQLITE_ERROR: no such column: url.ASC'')"
  by (simp add: tblFindNextById_def columns_def)

declare getNextUrlStep.simps(1) [simp del]

lemma getNextUrlStep_Selecting:
  "getNextUrlStep s Selecting =
     (s\<lparr>urlTableSynced := True\<rparr>,
      Rejected (DatabaseError ''SQLITE_ERROR: no such column: url.ASC''))"
  by (simp add: getNextUrlStep.simps(1) getUrlTable_def tblFindNextById_ASC)

lemma getNextUrl_Selecting:
  "getNextUrl (Suc fuel) s Selecting =
     (s\<lparr>urlTableSynced := True\<rparr>,
      Rejected (DatabaseError ''SQLITE_ERROR: no such column: url.ASC''))"
  by (cases fuel) (simp_all add: getNextUrlStep_Selecting)

lemma getNextUrl2_selecting:
  assumes "c1 = Selecting \<or> c1 = Rejected (DatabaseError ''SQLITE_ERROR: no such column: url.ASC'')"
    and "c2 = Selecting \<or> c2 = Rejected (DatabaseError ''SQLITE_ERROR: no such column: url.ASC'')"
  shows "urlTable (fst (getNextUrl2 ws (s, c1, c2))) = urlTable s \<and>
     (fst (snd (getNextUrl2 ws (s, c1, c2))) = Selecting \<or>
      fst (snd (getNextUrl2 ws (s, c1, c2))) =
        Rejected (DatabaseError ''SQLITE_ERROR: no such column: url.ASC'')) \<and>
     (snd (snd (getNextUrl2 ws (s, c1, c2))) = Selecting \<or>
      snd (snd (getNextUrl2 ws (s, c1, c2))) =
        Rejected (DatabaseError ''SQLITE_ERROR: no such column: url.ASC''))"
  using assms
proof (induction ws arbitrary: s c1 c2)
  case Nil
  then show ?case by simp
next
  case (Cons w ws)
  let ?E = "Rejected (DatabaseError ''SQLITE_ERROR: no such column: url.ASC'')"
  show ?case
  proof (cases w)
    case True
    obtain s' c2' where st: "getNextUrlStep s c2 = (s', c2')"
      by (cases "getNextUrlStep s c2") auto
    have k: "urlTable s' = urlTable s \<and> (c2' = Selecting \<or> c2' = ?E)"
      using Cons.prems(2) st by (auto simp: getNextUrlStep_Selecting)
    have "getNextUrl2 (w # ws) (s, c1, c2) = getNextUrl2 ws (s', c1, c2')"
      using True st by simp
    then show ?thesis
      using Cons.IH [of c1 c2' s'] Cons.prems(1) k by simp
  next
    case False
    obtain s' c1' where st: "getNextUrlStep s c1 = (s', c1')"
      by (cases "getNextUrlStep s c1") auto
    have k: "urlTable s' = urlTable s \<and> (c1' = Selecting \<or> c1' = ?E)"
      using Cons.prems(1) st by (auto simp: getNextUrlStep_Selecting)
    have "getNextUrl2 (w # ws) (s, c1, c2) = getNextUrl2 ws (s', c1', c2)"
      using False st by simp
    then show ?thesis
      using Cons.IH [of c1' c2 s'] Cons.prems(2) k by simp
  qed
qed

lemma tblUpdateCrawled_again:
  "fst (tblUpdateCrawled i (snd (tblUpdateCrawled i tbl))) = fst (tblUpdateCrawled i tbl)"
proof -
  have "filter (\<lambda>r. rowId r = i) (map (\<lambda>r. if rowId r = i then r\<lparr>crawled := True\<rparr> else r) tbl) =
        map (\<lambda>r. r\<lparr>crawled := True\<rparr>) (filter (\<lambda>r. rowId r = i) tbl)"
    by (induction tbl) simp_all
  then show ?thesis by (simp add: tblUpdateCrawled_def)
qed

text \<open>
  Were two calls ever to hold the same row after their selections, each update would
  count the row, whatever its \<^verbatim>\<open>crawled\<close>, and both calls would resolve with its
  URL: the update's own where clause does not keep them apart.
\<close>

lemma getNextUrl2_updates_by_id:
  assumes "r \<in> set (urlTable s)"
  shows "fst (snd (getNextUrl2 [False, True] (s, Updating r, Updating r))) =
           Resolved \<lparr>url = url r, statusCode = statusCode r, errorCode = errorCode r,
                     errorMessage = errorMessage r\<rparr> \<and>
         snd (snd (getNextUrl2 [False, True] (s, Updating r, Updating r))) =
           Resolved \<lparr>url = url r, statusCode = statusCode r, errorCode = errorCode r,
                     errorMessage = errorMessage r\<rparr>"
proof -
  have a: "filter (\<lambda>x. rowId x = rowId r) (urlTable s) \<noteq> []"
    using assms by (auto simp: filter_empty_conv)
  have b: "fst (tblUpdateCrawled (rowId r) (urlTable s)) \<noteq> 0"
    using a by (simp add: tblUpdateCrawled_def)
  have c: "fst (tblUpdateCrawled (rowId r) (snd (tblUpdateCrawled (rowId r) (urlTable s)))) \<noteq> 0"
    using b by (simp add: tblUpdateCrawled_again)
  obtain n1 t1 where u1: "tblUpdateCrawled (rowId r) (urlTable s) = (n1, t1)"
    by (cases "tblUpdateCrawled (rowId r) (urlTable s)") auto
  obtain n2 t2 where u2: "tblUpdateCrawled (rowId r) t1 = (n2, t2)"
    by (cases "tblUpdateCrawled (rowId r) t1") auto
  have "n1 \<noteq> 0" "n2 \<noteq> 0"
    using b c u1 u2 by simp_all
  then show ?thesis
    using u1 u2 by simp
qed

text \<open>
  C1 fails on the code. Whatever the table holds, the selection of
  \<^verbatim>\<open>getNextUrl\<close> is refused by the store, which is asked to order by a column
  \<^verbatim>\<open>ASC\<close>: a call alone rejects at its first statement, and of two calls in flight,
  in whatever order the store runs their statements, neither ever resolves with an
  entry and the table stays as it was, no row marked. The update, which is never
  reached, counts the rows with the selected id whatever their \<^verbatim>\<open>crawled\<close>: run a
  second time it reports the same number.
\<close>

theorem getNextUrl_rejects_at_selection:
  "getNextUrl (Suc fuel) s Selecting =
     (s\<lparr>urlTableSynced := True\<rparr>,
      Rejected (DatabaseError ''SQLITE_ERROR: no such column: url.ASC'')) \<and>
   urlTable (fst (getNextUrl2 ws (s, Selecting, Selecting))) = urlTable s \<and>
   (\<forall>u. fst (snd (getNextUrl2 ws (s, Selecting, Selecting))) \<noteq> Resolved u) \<and>
   (\<forall>u. snd (snd (getNextUrl2 ws (s, Selecting, Selecting))) \<noteq> Resolved u) \<and>
   fst (tblUpdateCrawled i (snd (tblUpdateCrawled i tbl))) = fst (tblUpdateCrawled i tbl)"
proof -
  have k: "urlTable (fst (getNextUrl2 ws (s, Selecting, Selecting))) = urlTable s \<and>
     (fst (snd (getNextUrl2 ws (s, Selecting, Selecting))) = Selecting \<or>
      fst (snd (getNextUrl2 ws (s, Selecting, Selecting))) =
        Rejected (DatabaseError ''SQLITE_ERROR: no such column: url.ASC'')) \<and>
     (snd (snd (getNextUrl2 ws (s, Selecting, Selecting))) = Selecting \<or>
      snd (snd (getNextUrl2 ws (s, Selecting, Selecting))) =
        Rejected (DatabaseError ''SQLITE_ERROR: no such column: url.ASC''))"
    by (rule getNextUrl2_selecting) simp_all
  have a: "\<forall>u. fst (snd (getNextUrl2 ws (s, Selecting, Selecting))) \<noteq> Resolved u"
    using k by auto
  have b: "\<forall>u. snd (snd (getNextUrl2 ws (s, Selecting, Selecting))) \<noteq> Resolved u"
    using k by auto
  have g: "getNextUrl (Suc fuel) s Selecting =
     (s\<lparr>urlTableSynced := True\<rparr>,
      Rejected (DatabaseError ''SQLITE_ERROR: no such column: url.ASC''))"
    by (rule getNextUrl_Selecting)
  have t: "fst (tblUpdateCrawled i (snd (tblUpdateCrawled i tbl))) = fst (tblUpdateCrawled i tbl)"
    by (rule tblUpdateCrawled_again)
  from g k a b t show ?thesis by blast
qed

text \<open>
  The table with one uncrawled row, and two calls whose statements reach the store
  alternately: both reject and the row is still uncrawled.
\<close>

lemma getNextUrl_seeded_example:
  "getNextUrl2 [False, True, False, True] (seededList, Selecting, Selecting) =
     (seededList\<lparr>urlTableSynced := True\<rparr>,
      Rejected (DatabaseError ''SQLITE_ERROR: no such column: url.ASC''),
      Rejected (DatabaseError ''SQLITE_ERROR: no such column: url.ASC''))"
  by (simp add: getNextUrlStep_Selecting)

lemma upsertRow_numErrors:
  "numErrors (upsertRow sha1 u tbl) =
     (if getErrorCode u = None then 0
      else case findOneByHash (sha1 (getUrl u)) tbl of
             None \<Rightarrow> 1
           | Some r \<Rightarrow> numErrors r + 1)"
  by (simp add: upsertRow_def Let_def split: option.splits)

lemma upsertRow_crawledGiven: "crawledGiven (upsertRow sha1 u tbl) = None"
  by (simp add: upsertRow_def Let_def)

lemma tblUpsert_refused: "crawledGiven r = None \<Longrightarrow> tblUpsert r tbl = Inl notNullViolation"
  by (simp add: tblUpsert_def)

text \<open>
  C2 fails on the code. The object \<^verbatim>\<open>upsert\<close> builds has the
  \<^verbatim>\<open>numErrors\<close> the claim describes: 0 for a null error code, otherwise one more
  than the row found under the URL's hash has, 1 when there is none. But the object has
  no \<^verbatim>\<open>crawled\<close>, which the table requires: the write is refused, \<^verbatim>\<open>upsert\<close>
  rejects, and the table is what it was, with or without a row under that hash.
\<close>

theorem upsert_refused:
  "fst (upsert sha1 u s) = Inl notNullViolation \<and>
   urlTable (snd (upsert sha1 u s)) = urlTable s \<and>
   crawledGiven (upsertRow sha1 u (urlTable s)) = None \<and>
   numErrors (upsertRow sha1 u (urlTable s)) =
     (if getErrorCode u = None then 0
      else case findOneByHash (sha1 (getUrl u)) (urlTable s) of
             None \<Rightarrow> 1
           | Some r \<Rightarrow> numErrors r + 1)"
  by (simp add: upsert_def getUrlTable_def tblUpsert_refused upsertRow_crawledGiven
      upsertRow_numErrors)

text \<open>
  The crawler's success record for \<^verbatim>\<open>http://a/\<close>, upserted into the empty table
  and into the table that has a row for that URL.
\<close>

lemma upsert_example:
  "upsert (\<lambda>x. x)
     \<lparr>url = ''http://a/'', statusCode = Some 200, errorCode = None, errorMessage = None\<rparr>
     emptyList =
     (Inl (ValidationError ''notNull Violation: url.crawled cannot be null''),
      emptyList\<lparr>urlTableSynced := True\<rparr>) \<and>
   upsert (\<lambda>x. x)
     \<lparr>url = ''http://a/'', statusCode = None, errorCode = Some ''REQUEST_ERROR'',
      errorMessage = Some ''A request error occurred.''\<rparr>
     seededList =
     (Inl (ValidationError ''notNull Violation: url.crawled cannot be null''),
      seededList\<lparr>urlTableSynced := True\<rparr>)"
  by (simp add: upsert_def getUrlTable_def tblUpsert_def upsertRow_def notNullViolation_def
      emptyList_def seededList_def findOneByHash_def getUrl_def getErrorCode_def
      getStatusCode_def getErrorMessage_def Let_def)

lemma makeUrlRow_crawledGiven: "crawledGiven (makeUrlRow sha1 u) = None"
  by (simp add: makeUrlRow_def)

lemma tblCreate_refused: "crawledGiven r = None \<Longrightarrow> tblCreate r tbl = Inl notNullViolation"
  by (simp add: tblCreate_def)

lemma tblBulkCreate_skips:
  "list_all (\<lambda>r. crawledGiven r = None) rs \<Longrightarrow> tblBulkCreate rs tbl = tbl"
  by (induction rs) (simp_all add: tblCreate_refused)

lemma insertIfNotExistsBulk_creates_nothing:
  "urlTable (snd (insertIfNotExistsBulk sha1 urls s)) = urlTable s"
proof -
  have "list_all (\<lambda>r. crawledGiven r = None) (map (makeUrlRow sha1) urls)"
    by (simp add: list_all_iff makeUrlRow_crawledGiven)
  then show ?thesis
    by (simp add: insertIfNotExistsBulk_def getUrlTable_def tblBulkCreate_skips)
qed

text \<open>
  C3 fails on the code. The row of \<^verbatim>\<open>_makeUrlRow\<close> has no
  \<^verbatim>\<open>crawled\<close>, which the table requires, so the creation is refused whatever the
  table holds; the catch on the creation's promise, meant for the unique constraint,
  turns the refusal into a \<^verbatim>\<open>TypeError\<close>. \<^verbatim>\<open>insertIfNotExists\<close> rejects for every
  record and creates no row.
\<close>

theorem insertIfNotExists_creates_nothing:
  "crawledGiven (makeUrlRow sha1 u) = None \<and>
   tblCreate (makeUrlRow sha1 u) (urlTable s) = Inl notNullViolation \<and>
   fst (insertIfNotExists sha1 u s) =
     Inl (TypeError
       ''Class constructor UniqueConstraintError cannot be invoked without new'') \<and>
   urlTable (snd (insertIfNotExists sha1 u s)) = urlTable s"
  by (simp add: insertIfNotExists_def getUrlTable_def nativeCatchEs6Class_def
      tblCreate_refused makeUrlRow_crawledGiven)

text \<open>The first insertion of \<^verbatim>\<open>http://a/\<close> into the empty table.\<close>

lemma insertIfNotExists_example:
  "insertIfNotExists (\<lambda>x. x) (newUrl ''http://a/'') emptyList =
     (Inl (TypeError
        ''Class constructor UniqueConstraintError cannot be invoked without new''),
      emptyList\<lparr>urlTableSynced := True\<rparr>)"
  by (simp add: insertIfNotExists_def getUrlTable_def nativeCatchEs6Class_def
      tblCreate_def makeUrlRow_def emptyList_def)

section \<open>Properties of the handler registry\<close>

lemma strIndexOf_lower: "strIndexOf hay needle \<ge> - 1"
  by (induction hay) (auto simp: Let_def)

lemma strIndexOf_zero: "strIndexOf hay needle = 0 \<longleftrightarrow> prefix needle hay"
proof (cases hay)
  case Nil
  then show ?thesis by auto
next
  case (Cons c cs)
  have "strIndexOf cs needle \<ge> - 1" by (rule strIndexOf_lower)
  then show ?thesis using Cons by (auto simp: Let_def)
qed

lemma arrIndexOf_found: "arrIndexOf ys x > - 1 \<longleftrightarrow> x \<in> set ys"
proof (induction ys)
  case Nil
  then show ?case by simp
next
  case (Cons y ys)
  have "arrIndexOf ys x \<ge> - 1" by (induction ys) (auto simp: Let_def)
  then show ?case using Cons by (auto simp: Let_def)
qed

lemma prefix_slash:
  "prefix (t @ ''/'') (ct @ ''/'') \<longleftrightarrow> ct = t \<or> prefix (t @ ''/'') ct"
proof
  assume p: "prefix (t @ ''/'') (ct @ ''/'')"
  then obtain zs where zs: "ct @ ''/'' = (t @ ''/'') @ zs" by (auto simp: prefix_def)
  show "ct = t \<or> prefix (t @ ''/'') ct"
  proof (cases zs rule: rev_cases)
    case Nil
    then show ?thesis using zs by simp
  next
    case (snoc ys y)
    then have "ct = (t @ ''/'') @ ys" using zs by simp
    then show ?thesis by (auto simp: prefix_def)
  qed
next
  assume "ct = t \<or> prefix (t @ ''/'') ct"
  then show "prefix (t @ ''/'') (ct @ ''/'')"
    by (auto simp: prefix_def)
qed

lemma handlerMatches_wildcard: "handlerMatches (MString ''*'') ct"
  by (simp add: handlerMatches_def)

lemma handlerMatches_string:
  "handlerMatches (MString t) ct \<longleftrightarrow> t = ''*'' \<or> ct = t \<or> prefix (t @ ''/'') ct"
  by (auto simp: handlerMatches_def strIndexOf_zero prefix_slash)

lemma handlerMatches_array:
  "handlerMatches (MArray ts) ct \<longleftrightarrow>
     ct \<in> set ts \<or> ct = joinComma ts \<or> prefix (joinComma ts @ ''/'') ct"
  by (auto simp: handlerMatches_def strIndexOf_zero prefix_slash arrIndexOf_found)

text \<open>
  The three tests, for a content type already stripped of its parameters. The wildcard
  matches every content type. A string \<open>t\<close> other than the wildcard matches exactly
  when the content type equals \<open>t\<close> or begins with \<open>t\<close> and a slash. An array
  matches when it contains the content type; when it does not, the third test still
  applies to it, with the array turned into its elements joined by commas.
\<close>

lemma handlerMatches_rule:
  "handlerMatches (MString ''*'') ct \<and>
   (handlerMatches (MString t) ct \<longleftrightarrow> t = ''*'' \<or> ct = t \<or> prefix (t @ ''/'') ct) \<and>
   (handlerMatches (MArray ts) ct \<longleftrightarrow>
      ct \<in> set ts \<or> ct = joinComma ts \<or> prefix (joinComma ts @ ''/'') ct)"
  using handlerMatches_wildcard [of ct] handlerMatches_string [of t ct]
    handlerMatches_array [of ts ct]
  by auto

text \<open>
  C6 fails on the code, for arrays: the array \<^verbatim>\<open>["text"]\<close> does not contain
  \<^verbatim>\<open>"text/html"\<close>, and \<^verbatim>\<open>_fireHandlers\<close> matches it, because the test for
  strings is also made on an array that failed its own test, and
  \<^verbatim>\<open>["text"] + "/"\<close> is \<^verbatim>\<open>"text/"\<close>.
\<close>

theorem handlerMatches_array_falls_through:
  "handlerMatches (MArray [''text'']) ''text/html'' \<and>
   arrIndexOf [''text''] ''text/html'' = - 1 \<and>
   strIndexOf (''text/html'' @ ''/'') (matcherToString (MArray [''text'']) @ ''/'') = 0"
  by (simp add: handlerMatches_def)

lemma matchingHandlers_Cons:
  "matchingHandlers (h # hs) ctx =
     (if handlerMatches (contentType h) (ctxContentType ctx) then h # matchingHandlers hs ctx
      else matchingHandlers hs ctx)"
  by (simp add: matchingHandlers_def)

lemma reduceHandlers_no_raise:
  "\<not> list_ex (raises ctx) (matchingHandlers hs ctx) \<Longrightarrow>
   reduceHandlers hs ctx arr = Inr (arr @ concat (map (contribution ctx) (matchingHandlers hs ctx)))"
proof (induction hs arbitrary: arr)
  case Nil
  then show ?case by (simp add: matchingHandlers_def)
next
  case (Cons h hs)
  show ?case
  proof (cases "handlerMatches (contentType h) (ctxContentType ctx)")
    case False
    then show ?thesis using Cons by (simp add: matchingHandlers_Cons)
  next
    case True
    then have nr: "\<not> raises ctx h" and rest: "\<not> list_ex (raises ctx) (matchingHandlers hs ctx)"
      using Cons.prems by (simp_all add: matchingHandlers_Cons)
    show ?thesis
      using True nr Cons.IH [OF rest]
      by (simp add: matchingHandlers_Cons contribution_def raises_def split: handler_result.splits)
  qed
qed

lemma reduceHandlers_Inr_no_raise:
  "reduceHandlers hs ctx arr = Inr links \<Longrightarrow>
   \<not> list_ex (raises ctx) (matchingHandlers hs ctx)"
proof (induction hs arbitrary: arr)
  case Nil
  then show ?case by (simp add: matchingHandlers_def)
next
  case (Cons h hs)
  show ?case
  proof (cases "handlerMatches (contentType h) (ctxContentType ctx)")
    case False
    then show ?thesis using Cons by (simp add: matchingHandlers_def)
  next
    case True
    show ?thesis
    proof (cases "handler h ctx")
      case (Raises e)
      then show ?thesis using Cons.prems True by simp
    next
      case (Returns l)
      then have "reduceHandlers hs ctx (arr @ l) = Inr links" using Cons.prems True by simp
      then have "\<not> list_ex (raises ctx) (matchingHandlers hs ctx)" by (rule Cons.IH)
      moreover have "\<not> raises ctx h" using Returns by (simp add: raises_def)
      ultimately show ?thesis using True by (simp add: matchingHandlers_def)
    next
      case ReturnsOther
      then have "reduceHandlers hs ctx (arr @ []) = Inr links" using Cons.prems True by simp
      then have "\<not> list_ex (raises ctx) (matchingHandlers hs ctx)" by (rule Cons.IH)
      moreover have "\<not> raises ctx h" using ReturnsOther by (simp add: raises_def)
      ultimately show ?thesis using True by (simp add: matchingHandlers_def)
    qed
  qed
qed

lemma reduceHandlers_Inr:
  "reduceHandlers hs ctx arr = Inr links \<Longrightarrow>
   links = arr @ concat (map (contribution ctx) (matchingHandlers hs ctx))"
  using reduceHandlers_Inr_no_raise [of hs ctx arr links]
    reduceHandlers_no_raise [of ctx hs arr]
  by simp

lemma reduceHandlers_append:
  "reduceHandlers (hs @ hs') ctx arr =
     (case reduceHandlers hs ctx arr of Inl e \<Rightarrow> Inl e | Inr a \<Rightarrow> reduceHandlers hs' ctx a)"
  by (induction hs arbitrary: arr) (auto split: handler_result.splits)

text \<open>
  C7. A dispatch that gives a list of links gives the concatenation, in registration
  order, of what each matching handler contributes: its list, or nothing when it did
  not return a list. It gives that list whenever no matching handler raises. In
  particular two matching handlers that return \<open>l1\<close> and \<open>l2\<close> give \<open>l1 @ l2\<close>.
\<close>

theorem fireHandlers_concatenation:
  "(fireHandlers hs ct body u = Inr links \<longrightarrow>
      links =
        concat (map (contribution \<lparr>ctxBody = body, ctxUrl = u, ctxContentType = stripParams ct\<rparr>)
          (matchingHandlers hs
             \<lparr>ctxBody = body, ctxUrl = u, ctxContentType = stripParams ct\<rparr>))) \<and>
   (\<not> list_ex (raises \<lparr>ctxBody = body, ctxUrl = u, ctxContentType = stripParams ct\<rparr>)
        (matchingHandlers hs
           \<lparr>ctxBody = body, ctxUrl = u, ctxContentType = stripParams ct\<rparr>) \<longrightarrow>
      fireHandlers hs ct body u =
        Inr (concat
          (map (contribution \<lparr>ctxBody = body, ctxUrl = u, ctxContentType = stripParams ct\<rparr>)
             (matchingHandlers hs
                \<lparr>ctxBody = body, ctxUrl = u, ctxContentType = stripParams ct\<rparr>)))) \<and>
   (handlerMatches m1 (stripParams ct) \<and> handlerMatches m2 (stripParams ct) \<and>
    h1 \<lparr>ctxBody = body, ctxUrl = u, ctxContentType = stripParams ct\<rparr> = Returns l1 \<and>
    h2 \<lparr>ctxBody = body, ctxUrl = u, ctxContentType = stripParams ct\<rparr> = Returns l2 \<longrightarrow>
      fireHandlers [\<lparr>contentType = m1, handler = h1\<rparr>, \<lparr>contentType = m2, handler = h2\<rparr>]
        ct body u = Inr (l1 @ l2))"
proof (intro conjI impI)
  let ?ctx = "\<lparr>ctxBody = body, ctxUrl = u, ctxContentType = stripParams ct\<rparr>"
  show "links = concat (map (contribution ?ctx) (matchingHandlers hs ?ctx))"
    if "fireHandlers hs ct body u = Inr links"
    using reduceHandlers_Inr [of hs ?ctx "[]" links] that by (simp add: fireHandlers_def)
  show "fireHandlers hs ct body u =
          Inr (concat (map (contribution ?ctx) (matchingHandlers hs ?ctx)))"
    if "\<not> list_ex (raises ?ctx) (matchingHandlers hs ?ctx)"
    using reduceHandlers_no_raise [of ?ctx hs "[]"] that by (simp add: fireHandlers_def)
  show "fireHandlers [\<lparr>contentType = m1, handler = h1\<rparr>, \<lparr>contentType = m2, handler = h2\<rparr>]
          ct body u = Inr (l1 @ l2)"
    if "handlerMatches m1 (stripParams ct) \<and> handlerMatches m2 (stripParams ct) \<and>
        h1 ?ctx = Returns l1 \<and> h2 ?ctx = Returns l2"
    using that by (simp add: fireHandlers_def)
qed

text \<open>
  An HTML page dispatched to four handlers: one for \<^verbatim>\<open>text\<close> that returns a link,
  one for the array \<^verbatim>\<open>["text/html"]\<close> that returns no array, one for \<^verbatim>\<open>image\<close>
  (which does not match) and one for every type that returns two links; and to the
  first and the last of them alone.
\<close>

theorem fireHandlers_concatenation_witness:
  "fireHandlers
     [\<lparr>contentType = MString ''text'', handler = (\<lambda>ctx. Returns [''http://a/1''])\<rparr>,
      \<lparr>contentType = MArray [''text/html''], handler = (\<lambda>ctx. ReturnsOther)\<rparr>,
      \<lparr>contentType = MString ''image'', handler = (\<lambda>ctx. Returns [''http://a/9''])\<rparr>,
      \<lparr>contentType = MString ''*'', handler = (\<lambda>ctx. Returns [''http://a/2'', ''http://a/3''])\<rparr>]
     ''text/html; charset=utf8'' ''<html></html>'' ''http://a/'' =
   Inr [''http://a/1'', ''http://a/2'', ''http://a/3''] \<and>
   fireHandlers
     [\<lparr>contentType = MString ''text'', handler = (\<lambda>ctx. Returns [''http://a/1''])\<rparr>,
      \<lparr>contentType = MString ''*'', handler = (\<lambda>ctx. Returns [''http://a/2'', ''http://a/3''])\<rparr>]
     ''text/html; charset=utf8'' ''<html></html>'' ''http://a/'' =
   Inr ([''http://a/1''] @ [''http://a/2'', ''http://a/3''])"
proof -
  let ?h1 = "\<lambda>ctx :: CrawlContext. Returns [''http://a/1'']"
  let ?h2 = "\<lambda>ctx :: CrawlContext. Returns [''http://a/2'', ''http://a/3'']"
  let ?hs = "[\<lparr>contentType = MString ''text'', handler = ?h1\<rparr>,
              \<lparr>contentType = MArray [''text/html''], handler = (\<lambda>ctx. ReturnsOther)\<rparr>,
              \<lparr>contentType = MString ''image'', handler = (\<lambda>ctx. Returns [''http://a/9''])\<rparr>,
              \<lparr>contentType = MString ''*'', handler = ?h2\<rparr>]"
  let ?ctx = "\<lparr>ctxBody = ''<html></html>'', ctxUrl = ''http://a/'',
               ctxContentType = stripParams ''text/html; charset=utf8''\<rparr>"
  have m: "matchingHandlers ?hs ?ctx =
             [\<lparr>contentType = MString ''text'', handler = ?h1\<rparr>,
              \<lparr>contentType = MArray [''text/html''], handler = (\<lambda>ctx. ReturnsOther)\<rparr>,
              \<lparr>contentType = MString ''*'', handler = ?h2\<rparr>]"
    by (simp add: matchingHandlers_def handlerMatches_def lineTerminator_def)
  have n: "\<not> list_ex (raises ?ctx) (matchingHandlers ?hs ?ctx)"
    unfolding m by (simp add: raises_def)
  have k: "concat (map (contribution ?ctx) (matchingHandlers ?hs ?ctx)) =
             [''http://a/1'', ''http://a/2'', ''http://a/3'']"
    unfolding m by (simp add: contribution_def)
  have a: "fireHandlers ?hs ''text/html; charset=utf8'' ''<html></html>'' ''http://a/'' =
             Inr [''http://a/1'', ''http://a/2'', ''http://a/3'']"
    using n k fireHandlers_concatenation
      [where hs = ?hs and ct = "''text/html; charset=utf8''" and body = "''<html></html>''"
         and u = "''http://a/''" and links = "[''http://a/1'', ''http://a/2'', ''http://a/3'']"
         and ?m1.0 = "MString ''text''" and ?m2.0 = "MString ''*''"
         and ?h1.0 = ?h1 and ?h2.0 = ?h2 and ?l1.0 = "[''http://a/1'']"
         and ?l2.0 = "[''http://a/2'', ''http://a/3'']"]
    by simp
  have p: "handlerMatches (MString ''text'') (stripParams ''text/html; charset=utf8'') \<and>
           handlerMatches (MString ''*'') (stripParams ''text/html; charset=utf8'')"
    by (simp add: handlerMatches_def lineTerminator_def)
  have b: "fireHandlers
             [\<lparr>contentType = MString ''text'', handler = ?h1\<rparr>,
              \<lparr>contentType = MString ''*'', handler = ?h2\<rparr>]
             ''text/html; charset=utf8'' ''<html></html>'' ''http://a/'' =
           Inr ([''http://a/1''] @ [''http://a/2'', ''http://a/3''])"
    using p fireHandlers_concatenation
      [where hs = "[]" and ct = "''text/html; charset=utf8''" and body = "''<html></html>''"
         and u = "''http://a/''" and links = "[]"
         and ?m1.0 = "MString ''text''" and ?m2.0 = "MString ''*''"
         and ?h1.0 = ?h1 and ?h2.0 = ?h2 and ?l1.0 = "[''http://a/1'']"
         and ?l2.0 = "[''http://a/2'', ''http://a/3'']"]
    by simp
  show ?thesis using a b by (intro conjI)
qed

lemma calledHandlers_bounds:
  "j \<in> set (calledHandlers hs ctx i) \<Longrightarrow> i \<le> j \<and> j < i + length hs"
proof (induction hs arbitrary: i)
  case Nil
  then show ?case by simp
next
  case (Cons x hs)
  then show ?case
    by (fastforce split: if_splits handler_result.splits)
qed

lemma calledHandlers_append:
  "calledHandlers (hs @ [x]) ctx i =
     (case reduceHandlers hs ctx arr of
        Inl e \<Rightarrow> calledHandlers hs ctx i
      | Inr a \<Rightarrow>
          calledHandlers hs ctx i @
          (if handlerMatches (contentType x) (ctxContentType ctx) then [i + length hs] else []))"
proof (induction hs arbitrary: i arr)
  case Nil
  show ?case by (simp split: handler_result.splits)
next
  case (Cons y hs)
  show ?case
  proof (cases "handlerMatches (contentType y) (ctxContentType ctx)")
    case False
    then show ?thesis using Cons.IH [of "Suc i" arr] by (simp split: sum.splits)
  next
    case True
    show ?thesis
    proof (cases "handler y ctx")
      case (Raises err)
      then show ?thesis using True by simp
    next
      case (Returns subArr)
      then show ?thesis using True Cons.IH [of "Suc i" "arr @ subArr"] by (simp split: sum.splits)
    next
      case ReturnsOther
      then show ?thesis using True Cons.IH [of "Suc i" arr] by (simp split: sum.splits)
    qed
  qed
qed

lemma wildcard_called:
  "(length hs \<in> set (calledHandlers (hs @ [\<lparr>contentType = MString ''*'', handler = h\<rparr>]) ctx 0)) =
   (\<exists>arr. reduceHandlers hs ctx [] = Inr arr)"
proof (cases "reduceHandlers hs ctx []")
  case (Inl e)
  have "length hs \<notin> set (calledHandlers hs ctx 0)"
    using calledHandlers_bounds [of "length hs" hs ctx 0] by auto
  then show ?thesis
    using Inl
      calledHandlers_append [of hs "\<lparr>contentType = MString ''*'', handler = h\<rparr>" ctx 0 "[]"]
    by simp
next
  case (Inr a)
  then show ?thesis
    using calledHandlers_append [of hs "\<lparr>contentType = MString ''*'', handler = h\<rparr>" ctx 0 "[]"]
    by (simp add: handlerMatches_wildcard)
qed

text \<open>
  C9, as amended. \<^verbatim>\<open>addHandler(h)\<close> is \<^verbatim>\<open>addHandler("*", h)\<close>: it returns the same and
  leaves the same crawler, with \<open>h\<close> registered last under the wildcard, which matches
  every content type. In a dispatch to the new registry, whatever the content type,
  \<open>h\<close> is called exactly when the dispatch to the handlers registered before it yields
  links, that is unless one of them raised; the dispatch is then that one followed by
  the call of \<open>h\<close>.
\<close>

theorem addHandler_wildcard_called:
  "addHandler (Args1 h) c = addHandler (Args2 (MString ''*'') h) c \<and>
   handlers (snd (addHandler (Args1 h) c)) =
     handlers c @ [\<lparr>contentType = MString ''*'', handler = h\<rparr>] \<and>
   handlerMatches (MString ''*'') ct \<and>
   (length (handlers c) \<in>
      set (calledHandlers (handlers (snd (addHandler (Args1 h) c)))
             \<lparr>ctxBody = body, ctxUrl = u, ctxContentType = stripParams ct\<rparr> 0)) =
     (\<exists>arr. fireHandlers (handlers c) ct body u = Inr arr) \<and>
   fireHandlers (handlers (snd (addHandler (Args1 h) c))) ct body u =
     (case fireHandlers (handlers c) ct body u of
        Inl e \<Rightarrow> Inl e
      | Inr arr \<Rightarrow>
          (case h \<lparr>ctxBody = body, ctxUrl = u, ctxContentType = stripParams ct\<rparr> of
             Raises e \<Rightarrow> Inl e
           | Returns l \<Rightarrow> Inr (arr @ l)
           | ReturnsOther \<Rightarrow> Inr arr))"
proof -
  let ?ctx = "\<lparr>ctxBody = body, ctxUrl = u, ctxContentType = stripParams ct\<rparr>"
  have r: "handlers (snd (addHandler (Args1 h) c)) =
           handlers c @ [\<lparr>contentType = MString ''*'', handler = h\<rparr>]"
    by simp
  have k: "(length (handlers c) \<in>
      set (calledHandlers (handlers (snd (addHandler (Args1 h) c))) ?ctx 0)) =
     (\<exists>arr. fireHandlers (handlers c) ct body u = Inr arr)"
    unfolding r fireHandlers_def by (rule wildcard_called)
  have d: "fireHandlers (handlers (snd (addHandler (Args1 h) c))) ct body u =
     (case fireHandlers (handlers c) ct body u of
        Inl e \<Rightarrow> Inl e
      | Inr arr \<Rightarrow>
          (case h ?ctx of
             Raises e \<Rightarrow> Inl e
           | Returns l \<Rightarrow> Inr (arr @ l)
           | ReturnsOther \<Rightarrow> Inr arr))"
    by (simp add: fireHandlers_def reduceHandlers_append handlerMatches_def
        split: sum.splits handler_result.splits)
  show ?thesis
    using r k d by (simp add: handlerMatches_wildcard)
qed

text \<open>
  A registry with one handler for \<^verbatim>\<open>text/html\<close>, then \<^verbatim>\<open>addHandler(h)\<close>, and a
  response of type \<^verbatim>\<open>image/png\<close>: the handler at position 1, \<open>h\<close>, is called.
\<close>

theorem addHandler_wildcard_called_witness:
  "1 \<in> set (calledHandlers
             (handlers (snd (addHandler (Args1 (\<lambda>ctx. Returns [''http://a/seen'']))
                (snd (addHandler (Args2 (MString ''text/html'') (\<lambda>ctx. Returns []))
                   (exampleCrawler True))))))
             \<lparr>ctxBody = [], ctxUrl = ''http://a/i.png'', ctxContentType = ''image/png''\<rparr> 0) \<and>
   fireHandlers
     (handlers (snd (addHandler (Args1 (\<lambda>ctx. Returns [''http://a/seen'']))
        (snd (addHandler (Args2 (MString ''text/html'') (\<lambda>ctx. Returns []))
           (exampleCrawler True))))))
     ''image/png'' [] ''http://a/i.png'' = Inr [''http://a/seen'']"
proof -
  let ?c = "snd (addHandler (Args2 (MString ''text/html'') (\<lambda>ctx. Returns []))
                   (exampleCrawler True))"
  have h: "handlers ?c = [\<lparr>contentType = MString ''text/html'', handler = (\<lambda>ctx. Returns [])\<rparr>]"
    by (simp add: exampleCrawler_def newCrawler_def)
  have s: "stripParams ''image/png'' = ''image/png''"
    by (simp add: lineTerminator_def)
  have f: "fireHandlers (handlers ?c) ''image/png'' [] ''http://a/i.png'' = Inr []"
    unfolding h by (simp add: fireHandlers_def handlerMatches_def s)
  show ?thesis
    using addHandler_wildcard_called
      [of "\<lambda>ctx. Returns [''http://a/seen'']" ?c "''image/png''" "[]" "''http://a/i.png''"]
      h s f
    by simp
qed

text \<open>
  C9 as stated fails where it says that \<open>h\<close> is invoked on every dispatched response:
  a handler registered before \<open>h\<close> raises, the dispatch is rejected with its error, and
  the only handler called is that one, at position 0; \<open>h\<close>, at position 1, is not.
\<close>

theorem addHandler_wildcard_called_counterexample:
  "calledHandlers
     (handlers (snd (addHandler (Args1 (\<lambda>ctx. Returns [''http://a/seen'']))
        (snd (addHandler (Args1 (\<lambda>ctx. Raises (OtherError ''boom'')))
           (exampleCrawler True))))))
     \<lparr>ctxBody = [], ctxUrl = ''http://a/'', ctxContentType = ''text/html''\<rparr> 0 = [0] \<and>
   fireHandlers
     (handlers (snd (addHandler (Args1 (\<lambda>ctx. Returns [''http://a/seen'']))
        (snd (addHandler (Args1 (\<lambda>ctx. Raises (OtherError ''boom'')))
           (exampleCrawler True))))))
     ''text/html'' [] ''http://a/'' = Inl (OtherError ''boom'')"
  by (simp add: exampleCrawler_def newCrawler_def fireHandlers_def handlerMatches_def
      lineTerminator_def)

section \<open>Properties of the constructor, of _processUrl and of the tick\<close>

text \<open>
  C10, as amended. A crawler constructed with a falsy \<^verbatim>\<open>interval\<close> (0 among the
  falsy values) has \<^verbatim>\<open>getInterval()\<close> 1000, and one constructed with a falsy
  \<^verbatim>\<open>concurrentRequestsLimit\<close> has \<^verbatim>\<open>getConcurrentRequestsLimit()\<close> 5. So no
  \<^verbatim>\<open>interval\<close> option that is not a function makes \<^verbatim>\<open>getInterval()\<close> return 0.
\<close>

theorem constructor_defaults:
  "(\<not> truthy (optInterval opts) \<longrightarrow> getInterval (newCrawler opts fifo) = VNum 1000) \<and>
   (\<not> truthy (optConcurrentRequestsLimit opts) \<longrightarrow>
      getConcurrentRequestsLimit (newCrawler opts fifo) = VNum 5) \<and>
   ((\<forall>f. optInterval opts \<noteq> VFun f) \<longrightarrow> getInterval (newCrawler opts fifo) \<noteq> VNum 0)"
  by (cases "optInterval opts")
     (auto simp: newCrawler_def getInterval_def getConcurrentRequestsLimit_def orElse_def
       DEFAULT_INTERVAL_def DEFAULT_CONCURRENT_REQUESTS_LIMIT_def)

text \<open>The constructor called with \<^verbatim>\<open>{interval: 0, concurrentRequestsLimit: 0}\<close>.\<close>

theorem constructor_defaults_witness:
  "getInterval
     (newCrawler
        \<lparr>optUrlList = None, optInterval = VNum 0, optConcurrentRequestsLimit = VNum 0,
         optRobotsIgnoreServerError = Undefined, optRobotsEnabled = Undefined\<rparr>
        ([] :: string list)) = VNum 1000 \<and>
   getConcurrentRequestsLimit
     (newCrawler
        \<lparr>optUrlList = None, optInterval = VNum 0, optConcurrentRequestsLimit = VNum 0,
         optRobotsIgnoreServerError = Undefined, optRobotsEnabled = Undefined\<rparr>
        ([] :: string list)) = VNum 5 \<and>
   getInterval
     (newCrawler
        \<lparr>optUrlList = None, optInterval = VNum 0, optConcurrentRequestsLimit = VNum 0,
         optRobotsIgnoreServerError = Undefined, optRobotsEnabled = Undefined\<rparr>
        ([] :: string list)) \<noteq> VNum 0"
  using constructor_defaults
    [of "\<lparr>optUrlList = None, optInterval = VNum 0, optConcurrentRequestsLimit = VNum 0,
          optRobotsIgnoreServerError = Undefined, optRobotsEnabled = Undefined\<rparr>"
        "[] :: string list"]
  by simp

text \<open>
  C10 as stated fails in its last clause: a producer function is truthy, so the
  constructor keeps it, and \<^verbatim>\<open>getInterval()\<close> calls it. With
  \<^verbatim>\<open>{interval: function () { return 0; }}\<close> the interval is 0.
\<close>

theorem constructor_defaults_counterexample:
  "getInterval
     (newCrawler
        \<lparr>optUrlList = None, optInterval = VFun (\<lambda>x. VNum 0),
         optConcurrentRequestsLimit = Undefined, optRobotsIgnoreServerError = Undefined,
         optRobotsEnabled = Undefined\<rparr>
        ([] :: string list)) = VNum 0"
  by (simp add: newCrawler_def getInterval_def orElse_def)

subsection \<open>Ticks and request starts\<close>

lemma crawlTick_cases:
  "crawlTick c iv t1 t2 =
     (if \<not> started c then (Stopped, c)
      else if positive (dateDifference (getNextRequestDate c iv t1) t2) then (Rescheduled, c)
      else (Dequeues, c\<lparr>lastRequestDate := Some t2\<rparr>))"
  by (simp add: crawlTick_def Let_def)

lemma crawlTick_write_gap:
  "fst (crawlTick c iv t1 t2) = Dequeues \<Longrightarrow> lastRequestDate c = Some prev \<Longrightarrow>
   validDate (prev + iv) \<Longrightarrow> t2 - prev \<ge> iv"
  by (simp add: crawlTick_cases getNextRequestDate_def dateDifference_def positive_def
      split: if_splits)

lemma crawlTick_future:
  "started c \<Longrightarrow> getNextRequestDate c iv t1 = Some n \<Longrightarrow> n > t2 \<Longrightarrow>
   crawlTick c iv t1 t2 = (Rescheduled, c)"
  by (simp add: crawlTick_cases dateDifference_def positive_def)

lemma crawlTick_invalid:
  "started c \<Longrightarrow> getNextRequestDate c iv t1 = None \<Longrightarrow>
   crawlTick c iv t1 t2 = (Dequeues, c\<lparr>lastRequestDate := Some t2\<rparr>)"
  by (simp add: crawlTick_cases dateDifference_def positive_def)

lemma pacedFrom_requestStarts:
  "pacedFrom (lastRequestDate c) (requestStarts c steps)"
proof (induction steps arbitrary: c)
  case Nil
  show ?case by simp
next
  case (Cons s steps)
  show ?case
  proof (cases s)
    case (Tick iv t1 t2)
    show ?thesis
    proof (cases "fst (crawlTick c iv t1 t2) = Dequeues")
      case True
      then have w: "crawlTick c iv t1 t2 = (Dequeues, c\<lparr>lastRequestDate := Some t2\<rparr>)"
        by (simp add: crawlTick_cases split: if_splits)
      have g: "case lastRequestDate c of
                 None \<Rightarrow> True
               | Some prev \<Rightarrow> validDate (prev + iv) \<longrightarrow> t2 - prev \<ge> iv"
        using crawlTick_write_gap [OF True] by (simp split: option.splits)
      have "pacedFrom (lastRequestDate (c\<lparr>lastRequestDate := Some t2\<rparr>))
              (requestStarts (c\<lparr>lastRequestDate := Some t2\<rparr>) steps)"
        by (rule Cons.IH)
      then show ?thesis using Tick w g by simp
    next
      case False
      then have "crawlTick c iv t1 t2 = (Stopped, c) \<or> crawlTick c iv t1 t2 = (Rescheduled, c)"
        by (simp add: crawlTick_cases split: if_splits)
      then show ?thesis using Tick Cons.IH [of c] by auto
    qed
  next
    case Stop
    then show ?thesis using Cons.IH [of "stop c"] by (simp add: stop_def)
  next
    case Start
    then show ?thesis using Cons.IH [of "c\<lparr>started := True\<rparr>"] by simp
  qed
qed

lemma requestStarts_reads:
  "list_all (readsInterval iv0) steps \<Longrightarrow> list_all (\<lambda>(t, iv). iv = iv0) (requestStarts c steps)"
proof (induction steps arbitrary: c)
  case Nil
  show ?case by simp
next
  case (Cons s steps)
  then show ?case
    by (cases s) (auto split: prod.splits tick.splits)
qed

lemma requestStarts_valid:
  "list_all (nextDateValid iv0) steps \<Longrightarrow>
   list_all (\<lambda>(t, iv). validDate (t + iv0)) (requestStarts c steps)"
proof (induction steps arbitrary: c)
  case Nil
  show ?case by simp
next
  case (Cons s steps)
  have r: "list_all (\<lambda>(t, iv). validDate (t + iv0)) (requestStarts c' steps)"
    for c' :: "'a Crawler"
    using Cons.IH [of c'] Cons.prems by simp
  show ?case
  proof (cases s)
    case (Tick iv t1 t2)
    obtain k c1 where k: "crawlTick c iv t1 t2 = (k, c1)"
      by (cases "crawlTick c iv t1 t2") auto
    have v: "validDate (t2 + iv0)"
      using Cons.prems Tick by simp
    show ?thesis
      using Tick k v r [of c1] by (cases k) simp_all
  next
    case Stop
    then show ?thesis using r [of "stop c"] by simp
  next
    case Start
    then show ?thesis using r [of "c\<lparr>started := True\<rparr>"] by simp
  qed
qed

lemma pacedFrom_separated:
  "pacedFrom before starts \<Longrightarrow> list_all (\<lambda>(t, iv). iv = iv0) starts \<Longrightarrow>
   list_all (\<lambda>(t, iv). validDate (t + iv0)) starts \<Longrightarrow>
   separated iv0 (map fst starts) \<and>
   (case before of
      None \<Rightarrow> True
    | Some prev \<Rightarrow> validDate (prev + iv0) \<longrightarrow> separated iv0 (prev # map fst starts))"
proof (induction starts arbitrary: before)
  case Nil
  show ?case by (simp split: option.splits)
next
  case (Cons a starts)
  obtain t iv where a: "a = (t, iv)" by (cases a)
  have v: "validDate (t + iv0)" "iv = iv0"
    using Cons.prems a by simp_all
  have "separated iv0 (map fst starts) \<and>
        (validDate (t + iv0) \<longrightarrow> separated iv0 (t # map fst starts))"
    using Cons.IH [of "Some t"] Cons.prems a by simp
  then have s: "separated iv0 (t # map fst starts)"
    using v by simp
  show ?case
    using Cons.prems(1) a v s by (auto split: option.splits)
qed

text \<open>
  C8, as amended. In every run of ticks, of whatever chains, interleaved with calls of
  \<^verbatim>\<open>stop\<close> and \<^verbatim>\<open>start\<close>, each write of \<^verbatim>\<open>_lastRequestDate\<close> is at least the
  interval its tick read after the write before it (the one found in the crawler at the
  beginning of the run included), provided that write plus the interval is a valid
  date; so with one interval throughout, and clocks that read dates which are still
  valid dates an interval later, successive writes are at least that interval apart. A
  tick that dequeues has written its own \<^verbatim>\<open>nowDate\<close> before it returns, that is
  before the URL list is asked; a started tick that finds the next request date in the
  future reschedules and writes nothing.
\<close>

theorem crawlTick_pacing_in_range:
  "pacedFrom (lastRequestDate c) (requestStarts c steps) \<and>
   (list_all (readsInterval iv0) steps \<and> list_all (nextDateValid iv0) steps \<longrightarrow>
      separated iv0 (map fst (requestStarts c steps)) \<and>
      (case lastRequestDate c of
         None \<Rightarrow> True
       | Some prev \<Rightarrow>
           validDate (prev + iv0) \<longrightarrow> separated iv0 (prev # map fst (requestStarts c steps)))) \<and>
   (fst (crawlTick c iv t1 t2) = Dequeues \<longrightarrow>
      lastRequestDate (snd (crawlTick c iv t1 t2)) = Some t2) \<and>
   (started c \<and> getNextRequestDate c iv t1 = Some n \<and> n > t2 \<longrightarrow>
      crawlTick c iv t1 t2 = (Rescheduled, c)) \<and>
   (fst (crawlTick c iv t1 t2) \<noteq> Dequeues \<longrightarrow> snd (crawlTick c iv t1 t2) = c)"
proof (intro conjI impI)
  show "pacedFrom (lastRequestDate c) (requestStarts c steps)"
    by (rule pacedFrom_requestStarts)
  show "separated iv0 (map fst (requestStarts c steps))"
    if "list_all (readsInterval iv0) steps \<and> list_all (nextDateValid iv0) steps"
    using that pacedFrom_separated
      [OF pacedFrom_requestStarts [of c steps], of iv0]
      requestStarts_reads [of iv0 steps c] requestStarts_valid [of iv0 steps c]
    by simp
  show "case lastRequestDate c of
          None \<Rightarrow> True
        | Some prev \<Rightarrow>
            validDate (prev + iv0) \<longrightarrow> separated iv0 (prev # map fst (requestStarts c steps))"
    if "list_all (readsInterval iv0) steps \<and> list_all (nextDateValid iv0) steps"
    using that pacedFrom_separated
      [OF pacedFrom_requestStarts [of c steps], of iv0]
      requestStarts_reads [of iv0 steps c] requestStarts_valid [of iv0 steps c]
    by simp
  show "lastRequestDate (snd (crawlTick c iv t1 t2)) = Some t2"
    if "fst (crawlTick c iv t1 t2) = Dequeues"
    using that by (simp add: crawlTick_cases split: if_splits)
  show "crawlTick c iv t1 t2 = (Rescheduled, c)"
    if "started c \<and> getNextRequestDate c iv t1 = Some n \<and> n > t2"
    using that crawlTick_future [of c iv t1 n t2] by simp
  show "snd (crawlTick c iv t1 t2) = c"
    if "fst (crawlTick c iv t1 t2) \<noteq> Dequeues"
    using that by (simp add: crawlTick_cases split: if_splits)
qed

text \<open>
  A started crawler whose last request was at 0, with the interval 1000 throughout.
  Five ticks, at 400, 1000, 1000, 1500 and 2000: the requests start at 1000 and 2000.
  A tick of the crawler when it is not started leaves it as it is.
\<close>

theorem crawlTick_pacing_in_range_witness:
  "requestStarts ((exampleCrawler False)\<lparr>started := True, lastRequestDate := Some 0\<rparr>)
     [Tick 1000 400 400, Tick 1000 1000 1000, Tick 1000 1000 1000, Tick 1000 1500 1500,
      Tick 1000 2000 2000] = [(1000, 1000), (2000, 1000)] \<and>
   separated 1000 [0, 1000, 2000] \<and>
   lastRequestDate
     (snd (crawlTick ((exampleCrawler False)\<lparr>started := True, lastRequestDate := Some 0\<rparr>)
             1000 1000 1000)) = Some 1000 \<and>
   crawlTick ((exampleCrawler False)\<lparr>started := True, lastRequestDate := Some 0\<rparr>)
     1000 400 400 =
     (Rescheduled, (exampleCrawler False)\<lparr>started := True, lastRequestDate := Some 0\<rparr>) \<and>
   snd (crawlTick ((exampleCrawler False)\<lparr>lastRequestDate := Some 0\<rparr>) 1000 400 400) =
     (exampleCrawler False)\<lparr>lastRequestDate := Some 0\<rparr>"
proof -
  let ?c = "(exampleCrawler False)\<lparr>started := True, lastRequestDate := Some 0\<rparr>"
  let ?steps = "[Tick 1000 400 400, Tick 1000 1000 1000, Tick 1000 1000 1000,
                 Tick 1000 1500 1500, Tick 1000 2000 2000]"
  have n: "getNextRequestDate ?c 1000 t = Some 1000" for t
    by (simp add: getNextRequestDate_def validDate_def MAX_DATE_def)
  have r: "requestStarts ?c ?steps = [(1000, 1000), (2000, 1000)]"
    by (simp add: crawlTick_cases getNextRequestDate_def validDate_def MAX_DATE_def
        dateDifference_def positive_def)
  have a: "list_all (readsInterval 1000) ?steps \<and> list_all (nextDateValid 1000) ?steps"
    by (simp add: validDate_def MAX_DATE_def)
  have d: "fst (crawlTick ?c 1000 1000 1000) = Dequeues"
    by (simp add: crawlTick_cases n dateDifference_def positive_def)
  have f: "started ?c \<and> getNextRequestDate ?c 1000 400 = Some 1000 \<and> (1000 :: int) > 400"
    by (simp add: n)
  have l: "lastRequestDate ?c = Some 0" "validDate (0 + 1000)"
    by (simp_all add: validDate_def MAX_DATE_def)
  have p: "separated 1000 [0, 1000, 2000]"
    using crawlTick_pacing_in_range [of ?c ?steps 1000 1000 1000 1000 1000] r a l
    by simp
  have w: "lastRequestDate (snd (crawlTick ?c 1000 1000 1000)) = Some 1000"
    using crawlTick_pacing_in_range [of ?c ?steps 1000 1000 1000 1000 1000] d
    by blast
  have s: "crawlTick ?c 1000 400 400 = (Rescheduled, ?c)"
    using crawlTick_pacing_in_range [of ?c ?steps 1000 1000 400 400 1000] f
    by blast
  have i: "fst (crawlTick ((exampleCrawler False)\<lparr>lastRequestDate := Some 0\<rparr>) 1000 400 400) \<noteq>
           Dequeues"
    by (simp add: crawlTick_cases exampleCrawler_def newCrawler_def)
  have n: "snd (crawlTick ((exampleCrawler False)\<lparr>lastRequestDate := Some 0\<rparr>) 1000 400 400) =
           (exampleCrawler False)\<lparr>lastRequestDate := Some 0\<rparr>"
    using crawlTick_pacing_in_range
      [of "(exampleCrawler False)\<lparr>lastRequestDate := Some 0\<rparr>" ?steps 1000 1000 400 400 1000]
      i
    by blast
  show ?thesis using r p w s n by (intro conjI)
qed

text \<open>
  C8 as stated fails for an interval that takes the next request date out of the range
  of a date. A started crawler with the interval 10000000000000000, and two ticks, at 0
  and at 400: the next request date of the second tick is an Invalid Date, which is not
  in the future, so the tick does not reschedule; the two writes are 400 ms apart.
\<close>

theorem crawlTick_pacing_in_range_counterexample:
  "requestStarts ((exampleCrawler False)\<lparr>started := True\<rparr>)
     [Tick 10000000000000000 0 0, Tick 10000000000000000 400 400] =
     [(0, 10000000000000000), (400, 10000000000000000)] \<and>
   getNextRequestDate ((exampleCrawler False)\<lparr>started := True, lastRequestDate := Some 0\<rparr>)
     10000000000000000 400 = None \<and>
   \<not> separated 10000000000000000 [0, 400]"
  by (simp add: crawlTick_cases getNextRequestDate_def validDate_def MAX_DATE_def
      dateDifference_def positive_def exampleCrawler_def newCrawler_def)

subsection \<open>The stages of _processUrl\<close>

lemma showNat_digit: "n < 10 \<Longrightarrow> showNat n = [digitChar n]"
  by (simp add: showNat.simps)

lemma showNat_more: "n \<ge> 10 \<Longrightarrow> showNat n = showNat (n div 10) @ [digitChar (n mod 10)]"
  by (subst showNat.simps) simp

lemma showInt_500: "showInt 500 = ''500''"
  by (simp add: showInt_def showNat_digit showNat_more digitChar_def)

lemma showInt_404: "showInt 404 = ''404''"
  by (simp add: showInt_def showNat_digit showNat_more digitChar_def)








lemma outcomeStage_native_failure:
  "fst (outcomeStage Native u (Inl e) c) = Inr None"
  by (simp add: outcomeStage_def catchClass_def catchAll_def)



lemma fst_crawledStage_state: "fst (crawledStage p c) = fst (crawledStage p c')"
  by (simp add: crawledStage_def split: sum.splits option.splits)

lemma fst_afterDownload:
  "fst (afterDownload env fl u downloaded c1) =
     fst (crawledStage
       (fst (outcomeStage fl u
            (fst (insertStage env u (fst (dispatchStage env u downloaded c1))
                    (snd (dispatchStage env u downloaded c1))))
            (snd (insertStage env u (fst (dispatchStage env u downloaded c1))
                    (snd (dispatchStage env u downloaded c1))))))
       c1)"
proof -
  obtain d c2 where d: "dispatchStage env u downloaded c1 = (d, c2)"
    by (cases "dispatchStage env u downloaded c1") auto
  obtain i c3 where i: "insertStage env u d c2 = (i, c3)"
    by (cases "insertStage env u d c2") auto
  obtain out c4 where out: "outcomeStage fl u i c3 = (out, c4)"
    by (cases "outcomeStage fl u i c3") auto
  show ?thesis
    using fst_crawledStage_state [of out c4 c1] by (simp add: afterDownload_def d i out)
qed


lemma fst_outcomeStage_state: "fst (outcomeStage fl u p c) = fst (outcomeStage fl u p c')"
  by (simp add: outcomeStage_def Let_def)

lemma afterDownload_Inl:
  "fst (afterDownload env fl u (Inl e) c1) =
     fst (crawledStage (fst (outcomeStage fl u (Inl e) c1)) c1)"
  unfolding fst_afterDownload
  by (simp add: dispatchStage_def insertStage_def)

lemma afterDownload_native_failure:
  "fst (afterDownload env Native u (Inl e) c1) =
     Inl (TypeError ''Cannot read properties of undefined (reading 'getUrl')'')"
  by (simp add: afterDownload_Inl outcomeStage_native_failure crawledStage_def)

lemma robotsStage_cached:
  "robotsUrlOf env u = Some r \<Longrightarrow> robotsCache c r = Some cached \<Longrightarrow>
   robotsStage env c u = (Promise Bluebird (downloadUrl env u False), c)"
  by (simp add: robotsStage_def downloadAndCheckRobots_def getOrDownloadRobots_def
      catchClass_def catchAll_def)



lemma robotsStage_throws:
  "robotsUrlOf env u = None \<Longrightarrow> fst (robotsStage env c u) = Throws (TypeError ''Invalid URL'')"
  by (simp add: robotsStage_def downloadAndCheckRobots_def getOrDownloadRobots_def)

lemma fst_processUrl_robots_off:
  "\<not> robotsEnabled c \<Longrightarrow>
   fst (processUrl env c u) =
     Promise Native (fst (afterDownload env Native u (downloadUrl env u False)
                            (emit (CrawlUrl u) c)))"
  by (simp add: processUrl_def emit_def Let_def split: prod.splits)

lemma fst_processUrl_stage:
  assumes "robotsEnabled c" "robotsStage env (emit (CrawlUrl u) c) u = (Promise fl dl, c1)"
  shows "fst (processUrl env c u) = Promise fl (fst (afterDownload env fl u dl c1))"
  using assms by (simp add: processUrl_def emit_def Let_def split: prod.splits)

lemma snd_processUrl_stage:
  assumes "robotsEnabled c" "robotsStage env (emit (CrawlUrl u) c) u = (Promise fl dl, c1)"
  shows "snd (processUrl env c u) = snd (afterDownload env fl u dl c1)"
  using assms by (simp add: processUrl_def emit_def Let_def split: prod.splits)

lemma fst_processUrl_cached:
  assumes "robotsEnabled c" "robotsUrlOf env u = Some r" "robotsCache c r = Some cached"
  shows "fst (processUrl env c u) =
     Promise Bluebird (fst (afterDownload env Bluebird u (downloadUrl env u False)
                              (emit (CrawlUrl u) c)))"
proof -
  have st: "robotsStage env (emit (CrawlUrl u) c) u =
          (Promise Bluebird (downloadUrl env u False), emit (CrawlUrl u) c)"
    using assms by (intro robotsStage_cached [where r = r and cached = cached]) (simp_all add: emit_def)
  show ?thesis
    by (rule fst_processUrl_stage [OF assms(1) st])
qed









text \<open>
  With robots checking off the chain is a native one: whatever fails, the first catch
  resolves with \<^verbatim>\<open>undefined\<close> and \<^verbatim>\<open>_processUrl\<close> rejects with the
  \<^verbatim>\<open>TypeError\<close> of the last \<^verbatim>\<open>.then\<close>.
\<close>

lemma processUrl_robots_off_failure:
  assumes "\<not> robotsEnabled c" "downloadUrl env u False = Inl e"
  shows "fst (processUrl env c u) =
     Promise Native (Inl (TypeError ''Cannot read properties of undefined (reading 'getUrl')''))"
  using assms by (simp add: fst_processUrl_robots_off afterDownload_native_failure)

lemma processUrl_robots_off_example:
  "fst (processUrl (exampleEnv (\<lambda>u n. Gives (Some missingPage))) (exampleCrawler False)
          ''http://a/x'') =
     Promise Native (Inl (TypeError ''Cannot read properties of undefined (reading 'getUrl')''))"
proof -
  have "\<not> robotsEnabled (exampleCrawler False)"
    by (simp add: exampleCrawler_def newCrawler_def)
  moreover have "downloadUrl (exampleEnv (\<lambda>u n. Gives (Some missingPage))) ''http://a/x'' False =
      Inl (RequestError ''A request error occurred. Request failed with status code 404'')"
    by (simp add: downloadUrl_def axiosGet_def exampleEnv_def missingPage_def
        defaultValidateStatus_def showInt_404)
  ultimately show ?thesis by (rule processUrl_robots_off_failure)
qed

subsection \<open>What the stages leave alone\<close>

lemma dispatchStage_frame:
  "robotsCache (snd (dispatchStage env u dl c)) = robotsCache c"
  "lastRequestDate (snd (dispatchStage env u dl c)) = lastRequestDate c"
  "started (snd (dispatchStage env u dl c)) = started c"
  by (simp_all add: dispatchStage_def emit_def Let_def split: sum.splits option.splits)

lemma insertStage_frame:
  "robotsCache (snd (insertStage env u p c)) = robotsCache c"
  "lastRequestDate (snd (insertStage env u p c)) = lastRequestDate c"
  "started (snd (insertStage env u p c)) = started c"
  by (simp_all add: insertStage_def emit_def Let_def split: sum.splits option.splits prod.splits)

lemma outcomeStage_frame:
  "robotsCache (snd (outcomeStage fl u p c)) = robotsCache c"
  "lastRequestDate (snd (outcomeStage fl u p c)) = lastRequestDate c"
  "started (snd (outcomeStage fl u p c)) = started c"
  by (simp_all add: outcomeStage_def emit_def Let_def split: sum.splits)

lemma crawledStage_frame:
  "robotsCache (snd (crawledStage p c)) = robotsCache c"
  "lastRequestDate (snd (crawledStage p c)) = lastRequestDate c"
  "started (snd (crawledStage p c)) = started c"
  by (simp_all add: crawledStage_def emit_def split: sum.splits option.splits)

lemma afterDownload_frame:
  "robotsCache (snd (afterDownload env fl u dl c)) = robotsCache c \<and>
   lastRequestDate (snd (afterDownload env fl u dl c)) = lastRequestDate c \<and>
   started (snd (afterDownload env fl u dl c)) = started c"
proof -
  obtain d c2 where d: "dispatchStage env u dl c = (d, c2)"
    by (cases "dispatchStage env u dl c") auto
  obtain i c3 where i: "insertStage env u d c2 = (i, c3)"
    by (cases "insertStage env u d c2") auto
  obtain out c4 where out: "outcomeStage fl u i c3 = (out, c4)"
    by (cases "outcomeStage fl u i c3") auto
  have "robotsCache c2 = robotsCache c \<and> lastRequestDate c2 = lastRequestDate c \<and>
        started c2 = started c"
    using dispatchStage_frame [of env u dl c] d by simp
  then have "robotsCache c3 = robotsCache c \<and> lastRequestDate c3 = lastRequestDate c \<and>
        started c3 = started c"
    using insertStage_frame [of env u d c2] i by simp
  then have "robotsCache c4 = robotsCache c \<and> lastRequestDate c4 = lastRequestDate c \<and>
        started c4 = started c"
    using outcomeStage_frame [of fl u i c3] out by simp
  then show ?thesis
    by (simp add: afterDownload_def d i out crawledStage_frame)
qed

lemma robotsStage_frame:
  "lastRequestDate (snd (robotsStage env c u)) = lastRequestDate c"
  "started (snd (robotsStage env c u)) = started c"
  by (auto simp: robotsStage_def downloadAndCheckRobots_def getOrDownloadRobots_def
      robotsStore_def Let_def
      split: prod.splits returned.splits sum.splits option.splits if_splits)

lemma processUrl_frame:
  "lastRequestDate (snd (processUrl env c u)) = lastRequestDate c"
  "started (snd (processUrl env c u)) = started c"
proof -
  let ?c0 = "emit (CrawlUrl u) c"
  have c0: "lastRequestDate ?c0 = lastRequestDate c" "started ?c0 = started c"
    by (simp_all add: emit_def)
  obtain x c1 where x: "(if robotsEnabled ?c0 then robotsStage env ?c0 u
            else (Promise Native (downloadUrl env u False), ?c0)) = (x, c1)"
    by (cases "(if robotsEnabled ?c0 then robotsStage env ?c0 u
            else (Promise Native (downloadUrl env u False), ?c0))") auto
  have c1: "lastRequestDate c1 = lastRequestDate c \<and> started c1 = started c"
    using x c0 robotsStage_frame [of env ?c0 u] by (auto split: if_splits)
  have p: "processUrl env c u =
     (case x of
        Throws e \<Rightarrow> (Throws e, c1)
      | Promise fl dl \<Rightarrow>
          (Promise fl (fst (afterDownload env fl u dl c1)), snd (afterDownload env fl u dl c1)))"
    using x by (simp add: processUrl_def Let_def split: returned.splits prod.splits)
  show "lastRequestDate (snd (processUrl env c u)) = lastRequestDate c"
    unfolding p using c1 by (cases x) (simp_all add: afterDownload_frame)
  show "started (snd (processUrl env c u)) = started c"
    unfolding p using c1 by (cases x) (simp_all add: afterDownload_frame)
qed

lemma catchRangeError_frame:
  "lastRequestDate (snd (catchRangeError fl p c)) = lastRequestDate c"
  "started (snd (catchRangeError fl p c)) = started c"
  by (simp_all add: catchRangeError_def emit_def Let_def split: sum.splits flavour.splits)

text \<open>What follows the dequeue of a tick writes no date and starts or stops nothing.\<close>

lemma crawlTickRequest_frame:
  "lastRequestDate (snd (crawlTickRequest env c)) = lastRequestDate c \<and>
   started (snd (crawlTickRequest env c)) = started c"
proof (cases "listGetNextUrl env (getUrlList c)")
  case (Pair g q)
  show ?thesis
  proof (cases g)
    case (Inl e)
    then show ?thesis using Pair by (simp add: crawlTickRequest_def catchRangeError_frame)
  next
    case (Inr urlObj)
    let ?c1 = "c\<lparr>urlList := q, outstandingRequests := outstandingRequests c + 1\<rparr>"
    have f: "lastRequestDate (snd (processUrl env ?c1 (getUrl urlObj))) = lastRequestDate c"
      "started (snd (processUrl env ?c1 (getUrl urlObj))) = started c"
      by (simp_all add: processUrl_frame)
    obtain x c2 where x: "processUrl env ?c1 (getUrl urlObj) = (x, c2)"
      by (cases "processUrl env ?c1 (getUrl urlObj)") auto
    then have c2: "lastRequestDate c2 = lastRequestDate c" "started c2 = started c"
      using f by simp_all
    show ?thesis
      using Pair Inr x c2
      by (simp add: crawlTickRequest_def catchRangeError_frame Let_def
          split: returned.splits sum.splits prod.splits)
  qed
qed

lemma dispatchStage_robotsCache:
  "dispatchStage env u dl (c\<lparr>robotsCache := rc\<rparr>) =
     (fst (dispatchStage env u dl c), (snd (dispatchStage env u dl c))\<lparr>robotsCache := rc\<rparr>)"
  by (simp add: dispatchStage_def emit_def Let_def split: sum.splits option.splits)

lemma insertStage_robotsCache:
  "insertStage env u p (c\<lparr>robotsCache := rc\<rparr>) =
     (fst (insertStage env u p c), (snd (insertStage env u p c))\<lparr>robotsCache := rc\<rparr>)"
  by (simp add: insertStage_def emit_def Let_def getUrlList_def
      split: sum.splits option.splits prod.splits)

lemma afterDownload_robotsCache:
  "fst (afterDownload env fl u dl (c\<lparr>robotsCache := rc\<rparr>)) = fst (afterDownload env fl u dl c)"
proof -
  let ?d = "dispatchStage env u dl c"
  let ?i = "insertStage env u (fst ?d) (snd ?d)"
  have "fst (afterDownload env fl u dl (c\<lparr>robotsCache := rc\<rparr>)) =
        fst (crawledStage (fst (outcomeStage fl u (fst ?i) ((snd ?i)\<lparr>robotsCache := rc\<rparr>)))
               (c\<lparr>robotsCache := rc\<rparr>))"
    unfolding fst_afterDownload dispatchStage_robotsCache insertStage_robotsCache fst_conv snd_conv
    by (rule refl)
  also have "\<dots> = fst (crawledStage (fst (outcomeStage fl u (fst ?i) (snd ?i))) c)"
    using fst_outcomeStage_state [of fl u "fst ?i" "(snd ?i)\<lparr>robotsCache := rc\<rparr>" "snd ?i"]
      fst_crawledStage_state
        [of "fst (outcomeStage fl u (fst ?i) (snd ?i))" "c\<lparr>robotsCache := rc\<rparr>" c]
    by simp
  also have "\<dots> = fst (afterDownload env fl u dl c)"
    by (simp add: fst_afterDownload)
  finally show ?thesis .
qed

subsection \<open>A failed fetch of robots.txt\<close>

lemma downloadAndCheckRobots_strict_500:
  assumes "robotsUrlOf env u = Some r" "robotsCache c r = None"
    "listFlavour env (urlList c) = Bluebird"
    "listInsertIfNotExists env (newUrl r) (urlList c) = (Inr (), q)"
    "network env r 5 = Gives (Some resp)" "status resp = 500" "validateStatus env 500"
    "\<not> robotsIgnoreServerError c"
  shows "fst (downloadAndCheckRobots env c u) =
     Promise Bluebird (Inl (RobotsNotAllowedError
       ''No crawling is allowed because robots.txt could not be crawled. Status code 500''))"
  using assms
  by (simp add: downloadAndCheckRobots_def getOrDownloadRobots_def downloadUrl_def axiosGet_def
      getUrlList_def catchClass_def robotsCatchHttpError_def robotsStore_def showInt_500 Let_def)

lemma getOrDownloadRobots_failure:
  assumes "robotsUrlOf env u = Some r" "robotsCache c r = None"
    "listInsertIfNotExists env (newUrl r) (urlList c) = (Inr (), q)"
    "downloadUrl env r True = Inl e"
  shows "\<exists>e'. getOrDownloadRobots env c u =
           (Promise (listFlavour env (urlList c)) (Inl e'), c\<lparr>urlList := q\<rparr>)"
  using assms
  by (cases e; cases "listFlavour env (urlList c)")
     (simp_all add: getOrDownloadRobots_def getUrlList_def catchClass_def
      robotsCatchHttpError_def robotsStore_def Let_def)

lemma robotsStage_failure_state:
  assumes "robotsUrlOf env u = Some r" "robotsCache c r = None"
    "listInsertIfNotExists env (newUrl r) (urlList c) = (Inr (), q)"
    "downloadUrl env r True = Inl e"
  shows "robotsStage env c u =
           (Promise (listFlavour env (urlList c)) (downloadUrl env u False), c\<lparr>urlList := q\<rparr>)"
proof -
  obtain e' where g: "getOrDownloadRobots env c u =
           (Promise (listFlavour env (urlList c)) (Inl e'), c\<lparr>urlList := q\<rparr>)"
    using getOrDownloadRobots_failure [OF assms] by auto
  show ?thesis
    by (simp add: robotsStage_def downloadAndCheckRobots_def g catchClass_def catchAll_def
        split: flavour.splits)
qed

lemma processUrl_robots_failure:
  assumes "robotsEnabled c" "robotsUrlOf env u = Some r" "robotsCache c r = None"
    "listFlavour env (urlList c) = Bluebird"
    "listInsertIfNotExists env (newUrl r) (urlList c) = (Inr (), q)"
    "downloadUrl env r True = Inl e"
  shows "fst (processUrl env c u) =
         fst (processUrl env (c\<lparr>urlList := q, robotsCache := (robotsCache c)(r \<mapsto> [])\<rparr>) u)"
proof -
  let ?c0 = "emit (CrawlUrl u) c"
  let ?c' = "c\<lparr>urlList := q, robotsCache := (robotsCache c)(r \<mapsto> [])\<rparr>"
  let ?dl = "downloadUrl env u False"
  have st: "robotsStage env ?c0 u = (Promise Bluebird ?dl, ?c0\<lparr>urlList := q\<rparr>)"
    using robotsStage_failure_state [of env u r ?c0 q e] assms by (simp add: emit_def)
  have l: "fst (processUrl env c u) =
           Promise Bluebird (fst (afterDownload env Bluebird u ?dl (?c0\<lparr>urlList := q\<rparr>)))"
    by (rule fst_processUrl_stage [OF assms(1) st])
  have e: "emit (CrawlUrl u) ?c' =
           (?c0\<lparr>urlList := q\<rparr>)\<lparr>robotsCache := (robotsCache c)(r \<mapsto> [])\<rparr>"
    by (simp add: emit_def)
  have "fst (processUrl env ?c' u) =
           Promise Bluebird (fst (afterDownload env Bluebird u ?dl (emit (CrawlUrl u) ?c')))"
    using assms(1,2) by (intro fst_processUrl_cached [where r = r and cached = "[]"]) simp_all
  then have r: "fst (processUrl env ?c' u) =
           Promise Bluebird (fst (afterDownload env Bluebird u ?dl (?c0\<lparr>urlList := q\<rparr>)))"
    unfolding e afterDownload_robotsCache .
  show ?thesis using l r by simp
qed

lemma processUrl_robots_failure_cache:
  assumes "robotsEnabled c" "robotsUrlOf env u = Some r" "robotsCache c r = None"
    "listInsertIfNotExists env (newUrl r) (urlList c) = (Inr (), q)"
    "downloadUrl env r True = Inl e"
  shows "robotsCache (snd (processUrl env c u)) = robotsCache c"
proof -
  let ?c0 = "emit (CrawlUrl u) c"
  let ?fl = "listFlavour env (urlList c)"
  have st: "robotsStage env ?c0 u = (Promise ?fl (downloadUrl env u False), ?c0\<lparr>urlList := q\<rparr>)"
    using robotsStage_failure_state [of env u r ?c0 q e] assms by (simp add: emit_def)
  have "snd (processUrl env c u) =
        snd (afterDownload env ?fl u (downloadUrl env u False) (?c0\<lparr>urlList := q\<rparr>))"
    by (rule snd_processUrl_stage [OF assms(1) st])
  then show ?thesis
    using afterDownload_frame [of env ?fl u "downloadUrl env u False" "?c0\<lparr>urlList := q\<rparr>"]
    by (simp add: emit_def)
qed

subsection \<open>The site of the examples\<close>

lemma exampleEnv_fields:
  "network (exampleEnv net) = net"
  "validateStatus (exampleEnv net) = defaultValidateStatus"
  "robotsUrlOf (exampleEnv net) u = Some ''http://a/robots.txt''"
  "mimeLookup (exampleEnv net) u = None"
  "listFlavour (exampleEnv net) q = Bluebird"
  "listInsertIfNotExists (exampleEnv net) x q = (Inr (), if url x \<in> set q then q else q @ [url x])"
  "listInsertIfNotExistsBulk (exampleEnv net) = None"
  by (simp_all add: exampleEnv_def)

lemma lenientEnv_fields:
  "network (lenientEnv net) = net"
  "validateStatus (lenientEnv net) s"
  "robotsUrlOf (lenientEnv net) u = Some ''http://a/robots.txt''"
  "mimeLookup (lenientEnv net) u = None"
  "listFlavour (lenientEnv net) q = Bluebird"
  "listInsertIfNotExists (lenientEnv net) x q = (Inr (), if url x \<in> set q then q else q @ [url x])"
  "listInsertIfNotExistsBulk (lenientEnv net) = None"
  by (simp_all add: lenientEnv_def exampleEnv_def)

lemma exampleCrawler_fields:
  "robotsEnabled (exampleCrawler b) = b"
  "robotsCache (exampleCrawler b) k = None"
  "\<not> robotsIgnoreServerError (exampleCrawler b)"
  "handlers (exampleCrawler b) = []"
  "urlList (exampleCrawler b) = []"
  by (simp_all add: exampleCrawler_def newCrawler_def orElse_def)


subsection \<open>The outcome of _processUrl\<close>




subsection \<open>The outcome after a failed fetch of robots.txt\<close>

text \<open>
  C5, as amended. The robots body is not cached and the URL list returns Bluebird
  promises. When the fetch of \<^verbatim>\<open>robots.txt\<close> returns 500, a status that
  \<^verbatim>\<open>validateStatus\<close> accepts, and \<^verbatim>\<open>robotsIgnoreServerError\<close> is false,
  \<^verbatim>\<open>_downloadAndCheckRobots\<close> rejects with a \<^verbatim>\<open>RobotsNotAllowedError\<close>. For every
  other failure of that fetch (a request that fails, a status that \<^verbatim>\<open>validateStatus\<close>
  refuses, another error status, or 500 with the flag true) the error is swallowed and
  \<^verbatim>\<open>_processUrl\<close> settles as it does when the empty string is cached as the robots
  body, from the URL list as the insertion of the robots URL left it: the page is
  fetched and processed normally. After a fetch that axios fails nothing is cached: the
  robots cache is what it was.
\<close>

theorem robots_failure_swallowed_bluebird:
  "(robotsUrlOf env u = Some r \<and> robotsCache c r = None \<and>
    listFlavour env (urlList c) = Bluebird \<and>
    listInsertIfNotExists env (newUrl r) (urlList c) = (Inr (), q) \<and>
    network env r 5 = Gives (Some resp) \<and> status resp = 500 \<and> validateStatus env 500 \<and>
    \<not> robotsIgnoreServerError c \<longrightarrow>
      fst (downloadAndCheckRobots env c u) =
        Promise Bluebird (Inl (RobotsNotAllowedError
          ''No crawling is allowed because robots.txt could not be crawled. Status code 500''))) \<and>
   (robotsEnabled c \<and> robotsUrlOf env u = Some r \<and> robotsCache c r = None \<and>
    listFlavour env (urlList c) = Bluebird \<and>
    listInsertIfNotExists env (newUrl r) (urlList c) = (Inr (), q) \<and>
    downloadUrl env r True = Inl e \<and>
    \<not> (isHttpError e \<and> httpStatusCode e = 500 \<and> \<not> robotsIgnoreServerError c) \<longrightarrow>
      fst (processUrl env c u) =
        fst (processUrl env
               (c\<lparr>urlList := q, robotsCache := (robotsCache c)(r \<mapsto> [])\<rparr>) u)) \<and>
   (robotsEnabled c \<and> robotsUrlOf env u = Some r \<and> robotsCache c r = None \<and>
    listInsertIfNotExists env (newUrl r) (urlList c) = (Inr (), q) \<and>
    axiosGet env r 5 = Fails m \<longrightarrow>
      robotsCache (snd (processUrl env c u)) = robotsCache c)"
proof (intro conjI impI)
  show "fst (downloadAndCheckRobots env c u) =
        Promise Bluebird (Inl (RobotsNotAllowedError
          ''No crawling is allowed because robots.txt could not be crawled. Status code 500''))"
    if "robotsUrlOf env u = Some r \<and> robotsCache c r = None \<and>
        listFlavour env (urlList c) = Bluebird \<and>
        listInsertIfNotExists env (newUrl r) (urlList c) = (Inr (), q) \<and>
        network env r 5 = Gives (Some resp) \<and> status resp = 500 \<and> validateStatus env 500 \<and>
        \<not> robotsIgnoreServerError c"
    using that downloadAndCheckRobots_strict_500 [of env u r c q resp] by blast
  show "fst (processUrl env c u) =
        fst (processUrl env (c\<lparr>urlList := q, robotsCache := (robotsCache c)(r \<mapsto> [])\<rparr>) u)"
    if "robotsEnabled c \<and> robotsUrlOf env u = Some r \<and> robotsCache c r = None \<and>
        listFlavour env (urlList c) = Bluebird \<and>
        listInsertIfNotExists env (newUrl r) (urlList c) = (Inr (), q) \<and>
        downloadUrl env r True = Inl e \<and>
        \<not> (isHttpError e \<and> httpStatusCode e = 500 \<and> \<not> robotsIgnoreServerError c)"
    using that processUrl_robots_failure [of c env u r q e] by blast
  show "robotsCache (snd (processUrl env c u)) = robotsCache c"
    if "robotsEnabled c \<and> robotsUrlOf env u = Some r \<and> robotsCache c r = None \<and>
        listInsertIfNotExists env (newUrl r) (urlList c) = (Inr (), q) \<and>
        axiosGet env r 5 = Fails m"
  proof -
    have "downloadUrl env r True = Inl (RequestError (''A request error occurred. '' @ m))"
      using that by (simp add: downloadUrl_def)
    then show ?thesis
      using that
        processUrl_robots_failure_cache
          [of c env u r q "RequestError (''A request error occurred. '' @ m)"]
      by blast
  qed
qed

text \<open>
  The page \<^verbatim>\<open>http://a/p\<close> with robots checking on and an empty cache: when
  \<^verbatim>\<open>robots.txt\<close> answers 500 and the request options accept every status; when it
  answers 404 under axios's own \<^verbatim>\<open>validateStatus\<close>; and when the connection to it
  is refused.
\<close>

theorem robots_failure_swallowed_bluebird_witness:
  "fst (downloadAndCheckRobots
          (lenientEnv (\<lambda>u n. if u = ''http://a/robots.txt''
                              then Gives (Some (missingPage\<lparr>status := 500\<rparr>))
                              else Gives (Some okPage)))
          (exampleCrawler True) ''http://a/p'') =
     Promise Bluebird (Inl (RobotsNotAllowedError
       ''No crawling is allowed because robots.txt could not be crawled. Status code 500'')) \<and>
   fst (processUrl
          (exampleEnv (\<lambda>u n. if u = ''http://a/robots.txt'' then Gives (Some missingPage)
                              else Gives (Some okPage)))
          (exampleCrawler True) ''http://a/p'') =
   fst (processUrl
          (exampleEnv (\<lambda>u n. if u = ''http://a/robots.txt'' then Gives (Some missingPage)
                              else Gives (Some okPage)))
          ((exampleCrawler True)
             \<lparr>urlList := [''http://a/robots.txt''],
              robotsCache := (robotsCache (exampleCrawler True))(''http://a/robots.txt'' \<mapsto> [])\<rparr>)
          ''http://a/p'') \<and>
   robotsCache (snd (processUrl
          (exampleEnv (\<lambda>u n. if u = ''http://a/robots.txt'' then Fails ''ECONNREFUSED''
                              else Gives (Some okPage)))
          (exampleCrawler True) ''http://a/p'')) = robotsCache (exampleCrawler True)"
proof -
  let ?r = "''http://a/robots.txt''"
  let ?u = "''http://a/p''"
  let ?e500 = "lenientEnv (\<lambda>u n. if u = ?r then Gives (Some (missingPage\<lparr>status := 500\<rparr>))
                                  else Gives (Some okPage))"
  let ?e404 = "exampleEnv (\<lambda>u n. if u = ?r then Gives (Some missingPage)
                                  else Gives (Some okPage))"
  let ?eF = "exampleEnv (\<lambda>u n. if u = ?r then Fails ''ECONNREFUSED''
                                else Gives (Some okPage))"
  let ?msg = "''A request error occurred. Request failed with status code 404''"
  have f500: "robotsUrlOf ?e500 ?u = Some ?r"
    "listFlavour ?e500 (urlList (exampleCrawler True)) = Bluebird"
    "listInsertIfNotExists ?e500 (newUrl ?r) (urlList (exampleCrawler True)) = (Inr (), [?r])"
    "network ?e500 ?r 5 = Gives (Some (missingPage\<lparr>status := 500\<rparr>))"
    "status (missingPage\<lparr>status := 500\<rparr>) = 500"
    "validateStatus ?e500 500"
    by (simp_all add: lenientEnv_fields exampleCrawler_fields newUrl_def)
  have a: "fst (downloadAndCheckRobots ?e500 (exampleCrawler True) ?u) =
     Promise Bluebird (Inl (RobotsNotAllowedError
       ''No crawling is allowed because robots.txt could not be crawled. Status code 500''))"
    using f500 exampleCrawler_fields(2,3) [of True]
      robots_failure_swallowed_bluebird
        [where env = ?e500 and c = "exampleCrawler True" and u = ?u and r = ?r and q = "[?r]"
           and resp = "missingPage\<lparr>status := 500\<rparr>" and e = "RequestError ?msg"
           and m = "''ECONNREFUSED''", THEN conjunct1]
    by simp
  have f404: "robotsUrlOf ?e404 ?u = Some ?r"
    "listFlavour ?e404 (urlList (exampleCrawler True)) = Bluebird"
    "listInsertIfNotExists ?e404 (newUrl ?r) (urlList (exampleCrawler True)) = (Inr (), [?r])"
    "downloadUrl ?e404 ?r True = Inl (RequestError ?msg)"
    by (simp_all add: exampleEnv_fields exampleCrawler_fields newUrl_def downloadUrl_def
        axiosGet_def defaultValidateStatus_def missingPage_def showInt_404)
  have b: "fst (processUrl ?e404 (exampleCrawler True) ?u) =
           fst (processUrl ?e404
                  ((exampleCrawler True)
                     \<lparr>urlList := [?r],
                      robotsCache := (robotsCache (exampleCrawler True))(?r \<mapsto> [])\<rparr>) ?u)"
    using f404 exampleCrawler_fields(1,2) [of True]
      robots_failure_swallowed_bluebird
        [where env = ?e404 and c = "exampleCrawler True" and u = ?u and r = ?r and q = "[?r]"
           and resp = "missingPage" and e = "RequestError ?msg"
           and m = "''ECONNREFUSED''", THEN conjunct2, THEN conjunct1]
    by simp
  have fF: "robotsUrlOf ?eF ?u = Some ?r"
    "listInsertIfNotExists ?eF (newUrl ?r) (urlList (exampleCrawler True)) = (Inr (), [?r])"
    "axiosGet ?eF ?r 5 = Fails ''ECONNREFUSED''"
    by (simp_all add: exampleEnv_fields exampleCrawler_fields newUrl_def axiosGet_def)
  have c: "robotsCache (snd (processUrl ?eF (exampleCrawler True) ?u)) =
           robotsCache (exampleCrawler True)"
    using fF exampleCrawler_fields(1,2) [of True]
      robots_failure_swallowed_bluebird
        [where env = ?eF and c = "exampleCrawler True" and u = ?u and r = ?r and q = "[?r]"
           and resp = "missingPage" and e = "RequestError ?msg"
           and m = "''ECONNREFUSED''", THEN conjunct2, THEN conjunct2]
    by simp
  show ?thesis using a b c by (intro conjI)
qed

text \<open>
  C5 as stated fails where it says that the body is cached: the connection to
  \<^verbatim>\<open>robots.txt\<close> is refused, the page is fetched and its record is the success
  record, and the cache has no entry for the robots URL afterwards.
\<close>

theorem robots_failure_swallowed_bluebird_counterexample:
  "fst (processUrl
          (exampleEnv (\<lambda>u n. if u = ''http://a/robots.txt'' then Fails ''ECONNREFUSED''
                              else Gives (Some okPage)))
          (exampleCrawler True) ''http://a/p'') =
     Promise Bluebird
       (Inr \<lparr>url = ''http://a/p'', statusCode = Some 200, errorCode = None,
             errorMessage = None\<rparr>) \<and>
   robotsCache (snd (processUrl
          (exampleEnv (\<lambda>u n. if u = ''http://a/robots.txt'' then Fails ''ECONNREFUSED''
                              else Gives (Some okPage)))
          (exampleCrawler True) ''http://a/p'')) ''http://a/robots.txt'' = None"
  by (simp add: exampleEnv_def exampleCrawler_def newCrawler_def orElse_def okPage_def
      defaultValidateStatus_def
      processUrl_def robotsStage_def downloadAndCheckRobots_def getOrDownloadRobots_def
      robotsStore_def robotsCatchHttpError_def catchClass_def catchAll_def downloadUrl_def
      axiosGet_def afterDownload_def dispatchStage_def insertStage_def outcomeStage_def
      crawledStage_def contentTypeOf_def fireHandlers_def emit_def getUrlList_def newUrl_def
      getUrl_def getErrorCode_def getStatusCode_def getErrorMessage_def Let_def)

text \<open>
  The robots stage of \<^verbatim>\<open>_processUrl\<close> also swallows the \<^verbatim>\<open>RobotsNotAllowedError\<close>
  that its first catch rejects with again, so the error never reaches the catch that
  would record \<^verbatim>\<open>ROBOTS_NOT_ALLOWED\<close>: with \<^verbatim>\<open>robots.txt\<close> answering 500, request
  options that accept every status and the flag false, the page is fetched and its
  record is the success record.
\<close>

lemma processUrl_strict_500_example:
  "fst (processUrl
          (lenientEnv (\<lambda>u n. if u = ''http://a/robots.txt''
                              then Gives (Some (missingPage\<lparr>status := 500\<rparr>))
                              else Gives (Some okPage)))
          (exampleCrawler True) ''http://a/p'') =
     Promise Bluebird
       (Inr \<lparr>url = ''http://a/p'', statusCode = Some 200, errorCode = None,
             errorMessage = None\<rparr>)"
  by (simp add: lenientEnv_def exampleEnv_def exampleCrawler_def newCrawler_def orElse_def
      okPage_def missingPage_def
      processUrl_def robotsStage_def downloadAndCheckRobots_def getOrDownloadRobots_def
      robotsStore_def robotsCatchHttpError_def catchClass_def catchAll_def downloadUrl_def
      axiosGet_def afterDownload_def dispatchStage_def insertStage_def outcomeStage_def
      crawledStage_def contentTypeOf_def fireHandlers_def emit_def getUrlList_def newUrl_def
      getUrl_def getErrorCode_def getStatusCode_def getErrorMessage_def Let_def showInt_500)

text \<open>
  The object that the catch of \<^verbatim>\<open>_getOrDownloadRobots\<close> substitutes for an HTTP
  error other than the 500 above has no \<^verbatim>\<open>data\<close>: with \<^verbatim>\<open>robots.txt\<close> answering
  404 and request options that accept every status, the promise of the robots body
  rejects with a \<^verbatim>\<open>TypeError\<close> and nothing is cached.
\<close>

lemma getOrDownloadRobots_404_example:
  "fst (getOrDownloadRobots
          (lenientEnv (\<lambda>u n. if u = ''http://a/robots.txt'' then Gives (Some missingPage)
                              else Gives (Some okPage)))
          (exampleCrawler True) ''http://a/p'') =
     Promise Bluebird
       (Inl (TypeError ''Cannot read properties of undefined (reading 'toString')'')) \<and>
   robotsCache (snd (getOrDownloadRobots
          (lenientEnv (\<lambda>u n. if u = ''http://a/robots.txt'' then Gives (Some missingPage)
                              else Gives (Some okPage)))
          (exampleCrawler True) ''http://a/p'')) ''http://a/robots.txt'' = None"
  by (simp add: lenientEnv_def exampleEnv_def exampleCrawler_def newCrawler_def orElse_def
      missingPage_def getOrDownloadRobots_def robotsStore_def robotsCatchHttpError_def
      catchClass_def downloadUrl_def axiosGet_def getUrlList_def newUrl_def Let_def)

end
